theory Spec2Isabelle
  imports Complex_Main "HOL-Library.AList" "HOL-Library.Multiset" "HOL-Library.Product_Lexorder"
begin

section \<open>The review service of \<^verbatim>\<open>server.py\<close>\<close>

text \<open>
  The handler \<^verbatim>\<open>ReviewAnalyzerServer.__call__\<close> works on one module-level list
  \<^verbatim>\<open>reviews\<close> of dicts. Strings are lists of 8-bit characters, read as code points
  below 256. Three things of the handler come from outside the repository and are
  inputs of the model: the VADER scorer \<^verbatim>\<open>sia.polarity_scores\<close> (a function from text
  to scores), the dict that \<^verbatim>\<open>parse_qs\<close> builds from the query string or from the
  request body, and the values drawn from \<^verbatim>\<open>uuid.uuid4()\<close> and \<^verbatim>\<open>datetime.now()\<close>.
\<close>

subsection \<open>Exceptions, values and responses\<close>

datatype exn =
    KeyError string
  | IndexError
  | ValueError
  | TypeError
  | AttributeError
  | UnicodeDecodeError

text \<open>
  The dict returned by \<^verbatim>\<open>polarity_scores\<close>. Its floats are only compared, never
  computed with, so they are read as reals (VADER never yields NaN).
\<close>

record scores =
  neg :: real
  neu :: real
  pos :: real
  compound :: real

text \<open>
  A review is a dict with string keys; dicts keep insertion order, and an assignment to
  an existing key keeps its place (\<open>AList.update\<close>). A value is a string (the CSV
  columns and the fields of a posted review) or the scores dict stored under
  \<^verbatim>\<open>'sentiment'\<close>.
\<close>

datatype pyval = Str string | Scores scores

type_synonym review = "(string \<times> pyval) list"

datatype json =
    ErrorJ string
  | ExnJ exn
  | ReviewJ review
  | ReviewsJ "review list"

text \<open>
  A response is the status line given to \<^verbatim>\<open>start_response\<close> and the value that
  \<^verbatim>\<open>json.dumps\<close> renders into the body: \<open>ErrorJ m\<close> is \<^verbatim>\<open>{"error": m}\<close>, \<open>ExnJ e\<close> is
  \<^verbatim>\<open>{"error": str(e)}\<close>. The headers are a constant content type and the length of
  the rendered body and are left out.
\<close>

record response =
  status :: string
  body :: json

text \<open>
  How a call of the handler ends: it returns a body after \<^verbatim>\<open>start_response\<close>, an
  exception leaves it, or it falls off its end and returns \<^verbatim>\<open>None\<close> (then
  \<^verbatim>\<open>start_response\<close> was never called).
\<close>

datatype outcome =
    Returned response
  | Raised exn
  | ReturnedNone

definition ALLOWED_LOCATIONS :: "string list" where
  "ALLOWED_LOCATIONS =
    [''Albuquerque, New Mexico'', ''Carlsbad, California'', ''Chula Vista, California'',
     ''Colorado Springs, Colorado'', ''Denver, Colorado'', ''El Cajon, California'',
     ''El Paso, Texas'', ''Escondido, California'', ''Fresno, California'',
     ''La Mesa, California'', ''Las Vegas, Nevada'', ''Los Angeles, California'',
     ''Oceanside, California'', ''Phoenix, Arizona'', ''Sacramento, California'',
     ''Salt Lake City, Utah'', ''San Diego, California'', ''Tucson, Arizona'']"

subsection \<open>Dates and times\<close>

text \<open>A naive \<^verbatim>\<open>datetime\<close>; two of them compare field by field, the year first.\<close>

record datetime =
  year :: nat
  month :: nat
  day :: nat
  hour :: nat
  minute :: nat
  second :: nat
  microsecond :: nat

definition dt_key :: "datetime \<Rightarrow> nat \<times> nat \<times> nat \<times> nat \<times> nat \<times> nat \<times> nat" where
  "dt_key d = (year d, month d, day d, hour d, minute d, second d, microsecond d)"

definition dt_le :: "datetime \<Rightarrow> datetime \<Rightarrow> bool" where
  "dt_le a b = (dt_key a \<le> dt_key b)"

definition is_leap :: "nat \<Rightarrow> bool" where
  "is_leap y = (y mod 4 = 0 \<and> (y mod 100 \<noteq> 0 \<or> y mod 400 = 0))"

definition days_in_month :: "nat \<Rightarrow> nat \<Rightarrow> nat" where
  "days_in_month y m =
    (if m = 2 then (if is_leap y then 29 else 28)
     else if m = 4 \<or> m = 6 \<or> m = 9 \<or> m = 11 then 30 else 31)"

definition valid_datetime :: "datetime \<Rightarrow> bool" where
  "valid_datetime d =
    (1 \<le> year d \<and> year d \<le> 9999 \<and> 1 \<le> month d \<and> month d \<le> 12 \<and>
     1 \<le> day d \<and> day d \<le> days_in_month (year d) (month d) \<and>
     hour d \<le> 23 \<and> minute d \<le> 59 \<and> second d \<le> 59 \<and> microsecond d \<le> 999999)"

text \<open>The constructor \<^verbatim>\<open>datetime(y, m, d, H, M, S)\<close>: a \<^verbatim>\<open>ValueError\<close> outside the ranges.\<close>

definition mk_datetime :: "nat \<Rightarrow> nat \<Rightarrow> nat \<Rightarrow> nat \<Rightarrow> nat \<Rightarrow> nat \<Rightarrow> exn + datetime" where
  "mk_datetime y m d H M S =
    (let dt = \<lparr>year = y, month = m, day = d, hour = H, minute = M, second = S,
               microsecond = 0\<rparr>
     in if valid_datetime dt then Inr dt else Inl ValueError)"

text \<open>
  \<^verbatim>\<open>datetime.strptime\<close> for the two formats of the handler, as CPython's
  \<^verbatim>\<open>_strptime\<close> matches them: \<^verbatim>\<open>%Y\<close> is four digits; \<^verbatim>\<open>%m\<close>, \<^verbatim>\<open>%d\<close>, \<^verbatim>\<open>%H\<close>, \<^verbatim>\<open>%M\<close> and
  \<^verbatim>\<open>%S\<close> are one or two digits (\<^verbatim>\<open>%d\<close> also a space and one digit from 1 to 9); the
  blank of the format matches one or more whitespace characters; the whole string must
  be used up; the ranges are those of \<open>mk_datetime\<close>. Every failure is a
  \<^verbatim>\<open>ValueError\<close>.
\<close>

definition is_digit :: "char \<Rightarrow> bool" where
  "is_digit c = (48 \<le> (of_char c :: nat) \<and> (of_char c :: nat) \<le> 57)"

definition digit_val :: "char \<Rightarrow> nat" where
  "digit_val c = of_char c - 48"

definition is_space :: "char \<Rightarrow> bool" where
  "is_space c =
    (let n = (of_char c :: nat)
     in (9 \<le> n \<and> n \<le> 13) \<or> (28 \<le> n \<and> n \<le> 32) \<or> n = 133 \<or> n = 160)"

fun p_year :: "string \<Rightarrow> (nat \<times> string) option" where
  "p_year (a # b # c # d # rest) =
    (if is_digit a \<and> is_digit b \<and> is_digit c \<and> is_digit d
     then Some (1000 * digit_val a + 100 * digit_val b + 10 * digit_val c + digit_val d, rest)
     else None)"
| "p_year _ = None"

fun p_num2 :: "string \<Rightarrow> (nat \<times> string) option" where
  "p_num2 [] = None"
| "p_num2 [a] = (if is_digit a then Some (digit_val a, []) else None)"
| "p_num2 (a # b # rest) =
    (if is_digit a \<and> is_digit b then Some (10 * digit_val a + digit_val b, rest)
     else if is_digit a then Some (digit_val a, b # rest)
     else None)"

fun p_day :: "string \<Rightarrow> (nat \<times> string) option" where
  "p_day (a # b # rest) =
    (if a = CHR '' '' \<and> is_digit b \<and> b \<noteq> CHR ''0'' then Some (digit_val b, rest)
     else p_num2 (a # b # rest))"
| "p_day s = p_num2 s"

fun p_lit :: "char \<Rightarrow> string \<Rightarrow> string option" where
  "p_lit c [] = None"
| "p_lit c (a # rest) = (if a = c then Some rest else None)"

definition p_spaces :: "string \<Rightarrow> string option" where
  "p_spaces s = (if takeWhile is_space s = [] then None else Some (dropWhile is_space s))"

definition p_date :: "string \<Rightarrow> ((nat \<times> nat \<times> nat) \<times> string) option" where
  "p_date s =
    Option.bind (p_year s) (\<lambda>(y, s1).
    Option.bind (p_lit CHR ''-'' s1) (\<lambda>s2.
    Option.bind (p_num2 s2) (\<lambda>(m, s3).
    Option.bind (p_lit CHR ''-'' s3) (\<lambda>s4.
    Option.bind (p_day s4) (\<lambda>(d, s5). Some ((y, m, d), s5))))))"

definition p_time :: "string \<Rightarrow> ((nat \<times> nat \<times> nat) \<times> string) option" where
  "p_time s =
    Option.bind (p_num2 s) (\<lambda>(H, s1).
    Option.bind (p_lit CHR '':'' s1) (\<lambda>s2.
    Option.bind (p_num2 s2) (\<lambda>(M, s3).
    Option.bind (p_lit CHR '':'' s3) (\<lambda>s4.
    Option.bind (p_num2 s4) (\<lambda>(S, s5). Some ((H, M, S), s5))))))"

text \<open>\<^verbatim>\<open>datetime.strptime(s, '%Y-%m-%d')\<close>\<close>

definition strptime_date :: "string \<Rightarrow> exn + datetime" where
  "strptime_date s =
    (case p_date s of
       Some ((y, m, d), []) \<Rightarrow> mk_datetime y m d 0 0 0
     | _ \<Rightarrow> Inl ValueError)"

text \<open>\<^verbatim>\<open>datetime.strptime(s, '%Y-%m-%d %H:%M:%S')\<close>\<close>

definition strptime_ts :: "string \<Rightarrow> exn + datetime" where
  "strptime_ts s =
    (case p_date s of
       None \<Rightarrow> Inl ValueError
     | Some ((y, m, d), s1) \<Rightarrow>
        (case p_spaces s1 of
           None \<Rightarrow> Inl ValueError
         | Some s2 \<Rightarrow>
            (case p_time s2 of
               Some ((H, M, S), []) \<Rightarrow> mk_datetime y m d H M S
             | _ \<Rightarrow> Inl ValueError)))"

text \<open>
  \<^verbatim>\<open>strftime('%Y-%m-%d %H:%M:%S')\<close>: every field zero-padded to its width (the year to
  four digits from 1000 on, below that the C library decides).
\<close>

definition digit_char :: "nat \<Rightarrow> char" where
  "digit_char k = char_of (48 + k mod 10)"

definition pad2 :: "nat \<Rightarrow> string" where
  "pad2 n = [digit_char (n div 10), digit_char n]"

definition pad4 :: "nat \<Rightarrow> string" where
  "pad4 n = [digit_char (n div 1000), digit_char (n div 100), digit_char (n div 10),
             digit_char n]"

definition strftime_ts :: "datetime \<Rightarrow> string" where
  "strftime_ts d =
    pad4 (year d) @ ''-'' @ pad2 (month d) @ ''-'' @ pad2 (day d) @ '' '' @
    pad2 (hour d) @ '':'' @ pad2 (minute d) @ '':'' @ pad2 (second d)"

subsection \<open>The handler\<close>

text \<open>\<^verbatim>\<open>d.get(k, [None])[0]\<close> on a dict of lists; \<^verbatim>\<open>parse_qs\<close> makes no empty list.\<close>

definition get_first :: "(string \<rightharpoonup> string list) \<Rightarrow> string \<Rightarrow> exn + string option" where
  "get_first d k =
    (case d k of
       None \<Rightarrow> Inr None
     | Some [] \<Rightarrow> Inl IndexError
     | Some (v # vs) \<Rightarrow> Inr (Some v))"

text \<open>The truth value of \<^verbatim>\<open>None\<close> and of a string.\<close>

fun truthy :: "string option \<Rightarrow> bool" where
  "truthy None = False"
| "truthy (Some s) = (s \<noteq> [])"

text \<open>\<^verbatim>\<open>review[k]\<close>\<close>

definition getitem :: "review \<Rightarrow> string \<Rightarrow> exn + pyval" where
  "getitem r k = (case map_of r k of None \<Rightarrow> Inl (KeyError k) | Some v \<Rightarrow> Inr v)"

text \<open>\<^verbatim>\<open>review[k] = v\<close>\<close>

definition setitem :: "review \<Rightarrow> string \<Rightarrow> pyval \<Rightarrow> review" where
  "setitem r k v = AList.update k v r"

text \<open>
  The dicts of the list are shared between the list \<^verbatim>\<open>reviews\<close> and every list built
  from it, and the handler writes into them. A dict is named by its position in
  \<^verbatim>\<open>reviews\<close> at the start of the request. The variable \<^verbatim>\<open>filtered_reviews\<close> is either
  the list object \<^verbatim>\<open>reviews\<close> itself (after \<^verbatim>\<open>filtered_reviews = reviews\<close>) or a new
  list made by a comprehension.
\<close>

datatype listref = Global | Fresh "nat list"

definition deref :: "review list \<Rightarrow> listref \<Rightarrow> nat list" where
  "deref rs l = (case l of Global \<Rightarrow> [0..<length rs] | Fresh js \<Rightarrow> js)"

text \<open>\<^verbatim>\<open>[x for x in xs if c(x)]\<close>, where the condition may raise.\<close>

fun comprehension :: "('a \<Rightarrow> exn + bool) \<Rightarrow> 'a list \<Rightarrow> exn + 'a list" where
  "comprehension c [] = Inr []"
| "comprehension c (x # xs) =
    (case c x of
       Inl e \<Rightarrow> Inl e
     | Inr b \<Rightarrow>
        (case comprehension c xs of
           Inl e \<Rightarrow> Inl e
         | Inr ys \<Rightarrow> Inr (if b then x # ys else ys)))"

text \<open>\<^verbatim>\<open>review['Location'] == location\<close>\<close>

definition location_is :: "string \<Rightarrow> review \<Rightarrow> exn + bool" where
  "location_is location r =
    (case getitem r ''Location'' of Inl e \<Rightarrow> Inl e | Inr v \<Rightarrow> Inr (v = Str location))"

text \<open>\<^verbatim>\<open>datetime.strptime(review['Timestamp'], '%Y-%m-%d %H:%M:%S')\<close>\<close>

definition timestamp_of :: "review \<Rightarrow> exn + datetime" where
  "timestamp_of r =
    (case getitem r ''Timestamp'' of
       Inl e \<Rightarrow> Inl e
     | Inr (Str s) \<Rightarrow> strptime_ts s
     | Inr (Scores x) \<Rightarrow> Inl TypeError)"

definition not_before :: "datetime \<Rightarrow> review \<Rightarrow> exn + bool" where
  "not_before start_date_dt r =
    (case timestamp_of r of Inl e \<Rightarrow> Inl e | Inr t \<Rightarrow> Inr (dt_le start_date_dt t))"

definition not_after :: "datetime \<Rightarrow> review \<Rightarrow> exn + bool" where
  "not_after end_date_dt r =
    (case timestamp_of r of Inl e \<Rightarrow> Inl e | Inr t \<Rightarrow> Inr (dt_le t end_date_dt))"

text \<open>
  Lines 64 to 70. \<open>Inl\<close> is the early return of the 400 response or an exception of the
  comprehension.
\<close>

definition invalid_location :: response where
  "invalid_location = \<lparr>status = ''400 Bad Request'', body = ErrorJ ''Invalid location''\<rparr>"

definition filter_location ::
  "review list \<Rightarrow> string option \<Rightarrow> listref \<Rightarrow> outcome + listref" where
  "filter_location reviews location filtered_reviews =
    (if truthy location then
       (if the location \<notin> set ALLOWED_LOCATIONS then Inl (Returned invalid_location)
        else
          (case comprehension (\<lambda>i. location_is (the location) (reviews ! i))
                  (deref reviews filtered_reviews) of
             Inl e \<Rightarrow> Inl (Raised e)
           | Inr js \<Rightarrow> Inr (Fresh js)))
     else Inr filtered_reviews)"

text \<open>Lines 72 to 75.\<close>

definition filter_start_date ::
  "review list \<Rightarrow> string option \<Rightarrow> listref \<Rightarrow> exn + listref" where
  "filter_start_date reviews start_date filtered_reviews =
    (if truthy start_date then
       (case strptime_date (the start_date) of
          Inl e \<Rightarrow> Inl e
        | Inr start_date_dt \<Rightarrow>
           (case comprehension (\<lambda>i. not_before start_date_dt (reviews ! i))
                   (deref reviews filtered_reviews) of
              Inl e \<Rightarrow> Inl e
            | Inr js \<Rightarrow> Inr (Fresh js)))
     else Inr filtered_reviews)"

text \<open>Lines 77 to 80.\<close>

definition filter_end_date ::
  "review list \<Rightarrow> string option \<Rightarrow> listref \<Rightarrow> exn + listref" where
  "filter_end_date reviews end_date filtered_reviews =
    (if truthy end_date then
       (case strptime_date (the end_date) of
          Inl e \<Rightarrow> Inl e
        | Inr end_date_dt \<Rightarrow>
           (case comprehension (\<lambda>i. not_after end_date_dt (reviews ! i))
                   (deref reviews filtered_reviews) of
              Inl e \<Rightarrow> Inl e
            | Inr js \<Rightarrow> Inr (Fresh js)))
     else Inr filtered_reviews)"

text \<open>
  \<^verbatim>\<open>analyze_sentiment(review['ReviewBody'])\<close>: the scorer takes a string; VADER calls
  \<^verbatim>\<open>encode\<close> on anything else, which a dict does not have.
\<close>

definition analyze_sentiment :: "(string \<Rightarrow> scores) \<Rightarrow> pyval \<Rightarrow> exn + scores" where
  "analyze_sentiment sia review_body =
    (case review_body of Str s \<Rightarrow> Inr (sia s) | Scores x \<Rightarrow> Inl AttributeError)"

text \<open>
  Lines 83 and 84: the loop writes into the dicts of the list, one after the other, and
  an exception leaves the earlier writes in place.
\<close>

fun sentiment_loop ::
  "(string \<Rightarrow> scores) \<Rightarrow> review list \<Rightarrow> nat list \<Rightarrow> review list \<times> exn option" where
  "sentiment_loop sia reviews [] = (reviews, None)"
| "sentiment_loop sia reviews (i # js) =
    (case getitem (reviews ! i) ''ReviewBody'' of
       Inl e \<Rightarrow> (reviews, Some e)
     | Inr b \<Rightarrow>
        (case analyze_sentiment sia b of
           Inl e \<Rightarrow> (reviews, Some e)
         | Inr s \<Rightarrow>
            sentiment_loop sia
              (reviews[i := setitem (reviews ! i) ''sentiment'' (Scores s)]) js))"

text \<open>\<^verbatim>\<open>x['sentiment']['compound']\<close>; indexing a string with a string is a \<^verbatim>\<open>TypeError\<close>.\<close>

definition sort_key_of :: "review \<Rightarrow> exn + real" where
  "sort_key_of x =
    (case getitem x ''sentiment'' of
       Inl e \<Rightarrow> Inl e
     | Inr (Str s) \<Rightarrow> Inl TypeError
     | Inr (Scores sc) \<Rightarrow> Inr (compound sc))"

fun sort_keys :: "review list \<Rightarrow> nat list \<Rightarrow> exn + real list" where
  "sort_keys reviews [] = Inr []"
| "sort_keys reviews (i # js) =
    (case sort_key_of (reviews ! i) of
       Inl e \<Rightarrow> Inl e
     | Inr k \<Rightarrow> (case sort_keys reviews js of Inl e \<Rightarrow> Inl e | Inr ks \<Rightarrow> Inr (k # ks)))"

text \<open>
  \<^verbatim>\<open>list.sort(key=..., reverse=True)\<close>: CPython computes every key first, reverses the
  list, sorts it stably in ascending order of the keys and reverses the result.
\<close>

definition sort_reverse :: "('a \<Rightarrow> real) \<Rightarrow> 'a list \<Rightarrow> 'a list" where
  "sort_reverse key xs = rev (sort_key key (rev xs))"

definition sort_by_compound :: "review list \<Rightarrow> nat list \<Rightarrow> exn + nat list" where
  "sort_by_compound reviews js =
    (case sort_keys reviews js of
       Inl e \<Rightarrow> Inl e
     | Inr ks \<Rightarrow> Inr (map snd (sort_reverse fst (zip ks js))))"

text \<open>
  Lines 56 to 80: the value of \<^verbatim>\<open>filtered_reviews\<close> when the loop of line 83 starts, or
  the outcome that ends the request before (the 400 response or an exception, which
  nothing in the GET branch catches).
\<close>

definition filtered_reviews ::
  "review list \<Rightarrow> (string \<rightharpoonup> string list) \<Rightarrow> outcome + listref" where
  "filtered_reviews reviews query_params =
    (case get_first query_params ''location'' of
       Inl e \<Rightarrow> Inl (Raised e)
     | Inr location \<Rightarrow>
    (case get_first query_params ''start_date'' of
       Inl e \<Rightarrow> Inl (Raised e)
     | Inr start_date \<Rightarrow>
    (case get_first query_params ''end_date'' of
       Inl e \<Rightarrow> Inl (Raised e)
     | Inr end_date \<Rightarrow>
    (case filter_location reviews location Global of
       Inl out \<Rightarrow> Inl out
     | Inr fr1 \<Rightarrow>
    (case filter_start_date reviews start_date fr1 of
       Inl e \<Rightarrow> Inl (Raised e)
     | Inr fr2 \<Rightarrow>
    (case filter_end_date reviews end_date fr2 of
       Inl e \<Rightarrow> Inl (Raised e)
     | Inr fr3 \<Rightarrow> Inr fr3))))))"

text \<open>
  The GET branch, lines 54 to 92. The result is the list \<^verbatim>\<open>reviews\<close> as the request
  leaves it, and the outcome. The sort is in place: it reorders \<^verbatim>\<open>reviews\<close> itself when
  \<^verbatim>\<open>filtered_reviews\<close> still is that list.
\<close>

definition handle_get ::
  "(string \<Rightarrow> scores) \<Rightarrow> review list \<Rightarrow> (string \<rightharpoonup> string list) \<Rightarrow> review list \<times> outcome" where
  "handle_get sia reviews query_params =
    (case filtered_reviews reviews query_params of
       Inl out \<Rightarrow> (reviews, out)
     | Inr fr \<Rightarrow>
        (case sentiment_loop sia reviews (deref reviews fr) of
           (reviews', Some e) \<Rightarrow> (reviews', Raised e)
         | (reviews', None) \<Rightarrow>
            (case sort_by_compound reviews' (deref reviews' fr) of
               Inl e \<Rightarrow> (reviews', Raised e)
             | Inr js \<Rightarrow>
                (let sorted_reviews = map (\<lambda>i. reviews' ! i) js
                 in ((case fr of Global \<Rightarrow> sorted_reviews | Fresh x \<Rightarrow> reviews'),
                     Returned \<lparr>status = ''200 OK'', body = ReviewsJ sorted_reviews\<rparr>)))))"

text \<open>
  The POST branch, lines 95 to 134. \<open>review_data\<close> is what lines 98 to 100 give: the dict
  of \<^verbatim>\<open>parse_qs\<close>, or the exception raised while the body is read and decoded. Every
  exception ends in the handler of line 131.
\<close>

definition missing_fields :: response where
  "missing_fields =
    \<lparr>status = ''400 Bad Request'',
     body = ErrorJ ''ReviewBody and Location are required fields''\<rparr>"

definition internal_error :: "exn \<Rightarrow> response" where
  "internal_error e = \<lparr>status = ''500 Internal Server Error'', body = ExnJ e\<rparr>"

definition handle_post ::
  "string \<Rightarrow> datetime \<Rightarrow> review list \<Rightarrow> exn + (string \<rightharpoonup> string list) \<Rightarrow>
   review list \<times> outcome" where
  "handle_post uuid4 now reviews review_data_or_exn =
    (case review_data_or_exn of
       Inl e \<Rightarrow> (reviews, Returned (internal_error e))
     | Inr review_data \<Rightarrow>
    (case get_first review_data ''ReviewBody'' of
       Inl e \<Rightarrow> (reviews, Returned (internal_error e))
     | Inr review_body \<Rightarrow>
    (case get_first review_data ''Location'' of
       Inl e \<Rightarrow> (reviews, Returned (internal_error e))
     | Inr location \<Rightarrow>
       if \<not> truthy review_body \<or> \<not> truthy location then (reviews, Returned missing_fields)
       else if the location \<notin> set ALLOWED_LOCATIONS then (reviews, Returned invalid_location)
       else
         (let review_id = uuid4;
              timestamp = strftime_ts now;
              new_review =
                [(''ReviewId'', Str review_id),
                 (''ReviewBody'', Str (the review_body)),
                 (''Location'', Str (the location)),
                 (''Timestamp'', Str timestamp)]
          in (reviews @ [new_review],
              Returned \<lparr>status = ''201 Created'', body = ReviewJ new_review\<rparr>)))))"

text \<open>
  A request: the method, the parsed query string, the outcome of reading the body, and
  the values that \<^verbatim>\<open>uuid.uuid4()\<close> and \<^verbatim>\<open>datetime.now()\<close> yield during the call.
\<close>

record environ =
  REQUEST_METHOD :: string
  query_params :: "string \<rightharpoonup> string list"
  review_data :: "exn + (string \<rightharpoonup> string list)"
  uuid4 :: string
  now :: datetime

definition call :: "(string \<Rightarrow> scores) \<Rightarrow> review list \<Rightarrow> environ \<Rightarrow> review list \<times> outcome" where
  "call sia reviews environ =
    (if REQUEST_METHOD environ = ''GET'' then handle_get sia reviews (query_params environ)
     else if REQUEST_METHOD environ = ''POST''
       then handle_post (uuid4 environ) (now environ) reviews (review_data environ)
     else (reviews, ReturnedNone))"

text \<open>Requests served one after the other; the list goes from each to the next.\<close>

fun serve :: "(string \<Rightarrow> scores) \<Rightarrow> review list \<Rightarrow> environ list \<Rightarrow> review list" where
  "serve sia reviews [] = reviews"
| "serve sia reviews (environ # rest) = serve sia (fst (call sia reviews environ)) rest"

subsection \<open>Notions used in the statements and proofs\<close>

text \<open>The sort key of a review whose \<^verbatim>\<open>'sentiment'\<close> holds scores (0 stands in otherwise).\<close>

definition keyval :: "review \<Rightarrow> real" where
  "keyval r = (case sort_key_of r of Inl e \<Rightarrow> 0 | Inr k \<Rightarrow> k)"

text \<open>A review whose \<^verbatim>\<open>'sentiment'\<close> is what the scorer gives for its \<^verbatim>\<open>'ReviewBody'\<close>.\<close>

definition decorated :: "(string \<Rightarrow> scores) \<Rightarrow> review \<Rightarrow> bool" where
  "decorated sia r =
    (\<exists>b. map_of r ''ReviewBody'' = Some (Str b) \<and> map_of r ''sentiment'' = Some (Scores (sia b)))"

text \<open>Every position that a list names is a position of the store.\<close>

definition in_range :: "review list \<Rightarrow> listref \<Rightarrow> bool" where
  "in_range rs fr = (\<forall>j\<in>set (deref rs fr). j < length rs)"

text \<open>Two stores that differ at most in the \<^verbatim>\<open>'sentiment'\<close> of their dicts.\<close>

definition same_fields :: "review list \<Rightarrow> review list \<Rightarrow> bool" where
  "same_fields rs rs' =
    (length rs' = length rs \<and>
     (\<forall>i k. k \<noteq> ''sentiment'' \<longrightarrow> map_of (rs' ! i) k = map_of (rs ! i) k))"

subsection \<open>A small store and requests to run the handler on\<close>

definition example_sia :: "string \<Rightarrow> scores" where
  "example_sia s =
    \<lparr>neg = 0, neu = 1, pos = 0,
     compound = (if s = ''Great stay'' then 1 / 2 else if s = ''Terrible'' then - 1 / 2 else 0)\<rparr>"

definition example_reviews :: "review list" where
  "example_reviews =
    [[(''ReviewId'', Str ''r1''), (''ReviewBody'', Str ''Terrible''),
      (''Location'', Str ''Denver, Colorado''), (''Timestamp'', Str ''2024-01-15 00:00:00'')],
     [(''ReviewId'', Str ''r2''), (''ReviewBody'', Str ''Great stay''),
      (''Location'', Str ''Denver, Colorado''), (''Timestamp'', Str ''2024-01-15 10:30:00'')]]"

definition example_now :: datetime where
  "example_now =
    \<lparr>year = 2024, month = 3, day = 9, hour = 7, minute = 5, second = 59, microsecond = 123456\<rparr>"

definition example_request ::
  "string \<Rightarrow> (string \<times> string list) list \<Rightarrow> (string \<times> string list) list \<Rightarrow> environ" where
  "example_request method query form =
    \<lparr>REQUEST_METHOD = method, query_params = map_of query, review_data = Inr (map_of form),
     uuid4 = ''6f1c2a9e-0b7d-4c3a-9e2f-5d8a1b4c7e90'', now = example_now\<rparr>"

definition example_scored :: "review list" where
  "example_scored =
    [[(''ReviewId'', Str ''r2''), (''ReviewBody'', Str ''Great stay''),
      (''Location'', Str ''Denver, Colorado''), (''Timestamp'', Str ''2024-01-15 10:30:00''),
      (''sentiment'', Scores \<lparr>neg = 0, neu = 1, pos = 0, compound = 1 / 2\<rparr>)],
     [(''ReviewId'', Str ''r1''), (''ReviewBody'', Str ''Terrible''),
      (''Location'', Str ''Denver, Colorado''), (''Timestamp'', Str ''2024-01-15 00:00:00''),
      (''sentiment'', Scores \<lparr>neg = 0, neu = 1, pos = 0, compound = - 1 / 2\<rparr>)]]"

definition example_until :: environ where
  "example_until = example_request ''GET'' [(''end_date'', [''2024-01-15''])] []"

text \<open>
  A record that the GET branch can read: strings under \<^verbatim>\<open>'Location'\<close> and \<^verbatim>\<open>'ReviewBody'\<close>, and
  under \<^verbatim>\<open>'Timestamp'\<close> a string that \<^verbatim>\<open>strptime\<close> reads.
\<close>

definition well_formed :: "review \<Rightarrow> bool" where
  "well_formed r =
    (\<exists>l t b dt. map_of r ''Location'' = Some (Str l) \<and> map_of r ''Timestamp'' = Some (Str t) \<and>
       strptime_ts t = Inr dt \<and> map_of r ''ReviewBody'' = Some (Str b))"

definition example_malformed :: environ where
  "example_malformed = example_request ''GET'' [(''start_date'', [''yesterday''])] []"

text \<open>
  The outcomes of the requests of a run, in their order, and the records that its 201
  responses return: the records accepted by the write path.
\<close>

fun outcomes :: "(string \<Rightarrow> scores) \<Rightarrow> review list \<Rightarrow> environ list \<Rightarrow> outcome list" where
  "outcomes sia reviews [] = []"
| "outcomes sia reviews (environ # rest) =
    snd (call sia reviews environ) # outcomes sia (fst (call sia reviews environ)) rest"

fun created :: "outcome \<Rightarrow> review list" where
  "created (Returned r) =
    (case body r of
       ReviewJ x \<Rightarrow> (if status r = ''201 Created'' then [x] else [])
     | _ \<Rightarrow> [])"
| "created _ = []"

definition accepted :: "(string \<Rightarrow> scores) \<Rightarrow> review list \<Rightarrow> environ list \<Rightarrow> review list" where
  "accepted sia reviews environs = concat (map created (outcomes sia reviews environs))"

text \<open>What the invariant of the write path asks of a record.\<close>

definition acceptable :: "review \<Rightarrow> bool" where
  "acceptable r =
    ((\<exists>l. map_of r ''Location'' = Some (Str l) \<and> l \<in> set ALLOWED_LOCATIONS) \<and>
     (\<exists>t. timestamp_of r = Inr t))"

definition example_posts :: "environ list" where
  "example_posts =
    [example_request ''POST'' []
       [(''ReviewBody'', [''Great stay'']), (''Location'', [''Denver, Colorado''])],
     example_request ''POST'' []
       [(''ReviewBody'', [''Great stay'']), (''Location'', [''Nowhere, Atlantis''])],
     example_request ''POST'' [] [(''ReviewBody'', [''Great stay''])]]"

definition example_posted :: review where
  "example_posted =
    [(''ReviewId'', Str ''6f1c2a9e-0b7d-4c3a-9e2f-5d8a1b4c7e90''),
     (''ReviewBody'', Str ''Great stay''), (''Location'', Str ''Denver, Colorado''),
     (''Timestamp'', Str ''2024-03-09 07:05:59'')]"

text \<open>
  A second store, with reviews of several days and a scorer with more than two values.
  \<open>scored r c\<close> is the dict \<open>r\<close> after \<^verbatim>\<open>r['sentiment'] = ...\<close> with the compound score \<open>c\<close>.
\<close>

definition example_graded_sia :: "string \<Rightarrow> scores" where
  "example_graded_sia s =
    \<lparr>neg = 0, neu = 1, pos = 0,
     compound = (if s = ''Great stay'' then 1 / 2 else if s = ''Terrible'' then - 1 / 2
       else if s = ''Nice'' \<or> s = ''Pleasant'' then 1 / 5 else 0)\<rparr>"

definition example_dated :: "review list" where
  "example_dated =
    [[(''ReviewId'', Str ''d1''), (''ReviewBody'', Str ''Nice''),
      (''Location'', Str ''Denver, Colorado''), (''Timestamp'', Str ''2024-01-14 23:59:59'')],
     [(''ReviewId'', Str ''d2''), (''ReviewBody'', Str ''Great stay''),
      (''Location'', Str ''Denver, Colorado''), (''Timestamp'', Str ''2024-01-15 00:00:00'')],
     [(''ReviewId'', Str ''d3''), (''ReviewBody'', Str ''Terrible''),
      (''Location'', Str ''El Paso, Texas''), (''Timestamp'', Str ''2024-01-15 10:30:00'')],
     [(''ReviewId'', Str ''d4''), (''ReviewBody'', Str ''Pleasant''),
      (''Location'', Str ''Denver, Colorado''), (''Timestamp'', Str ''2023-01-15 00:00:00'')],
     [(''ReviewId'', Str ''d5''), (''ReviewBody'', Str ''Fine''),
      (''Location'', Str ''El Paso, Texas''), (''Timestamp'', Str ''2024-01-16 00:00:00'')]]"

definition scored :: "review \<Rightarrow> real \<Rightarrow> review" where
  "scored r c = r @ [(''sentiment'', Scores \<lparr>neg = 0, neu = 1, pos = 0, compound = c\<rparr>)]"

definition example_between :: environ where
  "example_between =
    example_request ''GET'' [(''start_date'', [''2024-01-14'']), (''end_date'', [''2024-01-15''])] []"

definition example_ranking :: "review list" where
  "example_ranking =
    [scored (example_dated ! 1) (1 / 2), scored (example_dated ! 0) (1 / 5),
     scored (example_dated ! 3) (1 / 5), scored (example_dated ! 4) 0,
     scored (example_dated ! 2) (- 1 / 2)]"


section \<open>Lemmas\<close>

subsection \<open>Parsing what \<^verbatim>\<open>strftime\<close> prints\<close>

lemma of_char_digit_char: "(of_char (digit_char k) :: nat) = 48 + k mod 10"
proof -
  have "k mod 10 < 10" by simp
  then have "48 + k mod 10 < 256" by linarith
  then show ?thesis by (simp add: digit_char_def)
qed

lemma is_digit_digit_char: "is_digit (digit_char k)"
proof -
  have "k mod 10 < 10" by simp
  then have "48 + k mod 10 \<le> 57" by linarith
  then show ?thesis by (simp add: is_digit_def of_char_digit_char)
qed

lemma digit_val_digit_char: "digit_val (digit_char k) = k mod 10"
  by (simp add: digit_val_def of_char_digit_char)

lemma not_space_digit_char: "\<not> is_space (digit_char k)"
proof -
  have "k mod 10 < 10" by simp
  then have "48 \<le> 48 + k mod 10 \<and> 48 + k mod 10 \<le> 57" by linarith
  then show ?thesis
    unfolding is_space_def Let_def of_char_digit_char by linarith
qed

lemma digit_char_not_blank: "digit_char k \<noteq> CHR '' ''"
proof
  assume "digit_char k = CHR '' ''"
  then have "(of_char (digit_char k) :: nat) = of_char CHR '' ''" by simp
  then show False unfolding of_char_digit_char by simp
qed

lemma p_num2_pad2: "n < 100 \<Longrightarrow> p_num2 (pad2 n @ rest) = Some (n, rest)"
proof -
  assume n: "n < 100"
  then have "n div 10 mod 10 = n div 10" by simp
  then have "10 * (n div 10 mod 10) + n mod 10 = n" by simp
  then show ?thesis
    by (simp add: pad2_def is_digit_digit_char digit_val_digit_char)
qed

lemma p_day_pad2: "n < 100 \<Longrightarrow> p_day (pad2 n @ rest) = Some (n, rest)"
  using p_num2_pad2[of n rest] by (simp add: pad2_def digit_char_not_blank)

lemma digits4: "(n::nat) < 10000 \<Longrightarrow>
  1000 * (n div 1000 mod 10) + 100 * (n div 100 mod 10) + 10 * (n div 10 mod 10) + n mod 10 = n"
proof -
  assume n: "n < 10000"
  have a: "n div 1000 mod 10 = n div 1000" using n by simp
  have b: "n div 100 = 10 * (n div 1000) + n div 100 mod 10"
    using div_mult2_eq[of n 100 10] by simp
  have c: "n div 10 = 10 * (n div 100) + n div 10 mod 10"
    using div_mult2_eq[of n 10 10] by simp
  have d: "n = 10 * (n div 10) + n mod 10" by simp
  show ?thesis using a b c d by linarith
qed

lemma p_year_pad4: "n < 10000 \<Longrightarrow> p_year (pad4 n @ rest) = Some (n, rest)"
  using digits4[of n] by (simp add: pad4_def is_digit_digit_char digit_val_digit_char)

lemma p_spaces_blank_pad2: "p_spaces (CHR '' '' # pad2 n @ rest) = Some (pad2 n @ rest)"
proof -
  have "is_space CHR '' ''" by (simp add: is_space_def)
  then show ?thesis by (simp add: p_spaces_def pad2_def not_space_digit_char)
qed

lemma p_date_strftime:
  "y < 10000 \<Longrightarrow> m < 100 \<Longrightarrow> d < 100 \<Longrightarrow>
   p_date (pad4 y @ CHR ''-'' # pad2 m @ CHR ''-'' # pad2 d @ rest) = Some ((y, m, d), rest)"
  by (simp add: p_date_def p_year_pad4 p_num2_pad2 p_day_pad2)

lemma p_time_strftime:
  "H < 100 \<Longrightarrow> M < 100 \<Longrightarrow> S < 100 \<Longrightarrow>
   p_time (pad2 H @ CHR '':'' # pad2 M @ CHR '':'' # pad2 S) = Some ((H, M, S), [])"
  using p_num2_pad2[of S "[]"] by (simp add: p_time_def p_num2_pad2)

lemma days_in_month_le: "days_in_month y m \<le> 31"
  by (simp add: days_in_month_def)

lemma valid_datetime_bounds:
  assumes "valid_datetime d"
  shows "year d < 10000" "month d < 100" "day d < 100" "hour d < 100" "minute d < 100"
    "second d < 100"
proof -
  from assms have "day d \<le> days_in_month (year d) (month d)" by (simp add: valid_datetime_def)
  then show "day d < 100" using days_in_month_le[of "year d" "month d"] by linarith
qed (use assms in \<open>simp_all add: valid_datetime_def\<close>)

lemma strftime_ts_shape:
  "strftime_ts d = pad4 (year d) @ CHR ''-'' # pad2 (month d) @ CHR ''-'' # pad2 (day d) @
      (CHR '' '' # pad2 (hour d) @ CHR '':'' # pad2 (minute d) @ CHR '':'' # pad2 (second d))"
  by (simp add: strftime_ts_def)

lemma mk_datetime_valid:
  "valid_datetime d \<Longrightarrow>
   mk_datetime (year d) (month d) (day d) (hour d) (minute d) (second d) =
     Inr (d\<lparr>microsecond := 0\<rparr>)"
  by (simp add: mk_datetime_def Let_def valid_datetime_def)

lemma strptime_strftime:
  assumes "valid_datetime d"
  shows "strptime_ts (strftime_ts d) = Inr (d\<lparr>microsecond := 0\<rparr>)"
proof -
  note b = valid_datetime_bounds[OF assms]
  have "p_date (strftime_ts d) = Some ((year d, month d, day d),
      CHR '' '' # pad2 (hour d) @ CHR '':'' # pad2 (minute d) @ CHR '':'' # pad2 (second d))"
    unfolding strftime_ts_shape using b(1,2,3) by (rule p_date_strftime)
  moreover have "p_time (pad2 (hour d) @ CHR '':'' # pad2 (minute d) @ CHR '':'' # pad2 (second d))
      = Some ((hour d, minute d, second d), [])"
    using b(4,5,6) by (rule p_time_strftime)
  ultimately have "strptime_ts (strftime_ts d) =
      mk_datetime (year d) (month d) (day d) (hour d) (minute d) (second d)"
    by (simp add: strptime_ts_def p_spaces_blank_pad2)
  then show ?thesis using assms by (simp add: mk_datetime_valid)
qed

lemma length_strftime: "length (strftime_ts d) = 19"
  by (simp add: strftime_ts_def pad2_def pad4_def)

subsection \<open>The sort\<close>

lemma insort_key_map:
  "insort_key f (g x) (map g ys) = map g (insort_key (\<lambda>y. f (g y)) x ys)"
  by (induction ys) simp_all

lemma sort_key_map: "sort_key f (map g xs) = map g (sort_key (\<lambda>y. f (g y)) xs)"
  by (induction xs) (simp_all add: insort_key_map)

lemma sort_reverse_map: "sort_reverse f (map g xs) = map g (sort_reverse (\<lambda>y. f (g y)) xs)"
  by (simp add: sort_reverse_def rev_map sort_key_map)

lemma sort_reverse_sorted: "sorted (rev (map f (sort_reverse f xs)))"
  by (simp add: sort_reverse_def rev_map)

lemma sort_reverse_stable:
  "filter (\<lambda>y. f y = k) (sort_reverse f xs) = filter (\<lambda>y. f y = k) xs"
  by (simp add: sort_reverse_def rev_filter[symmetric] sort_key_stable)

lemma sort_reverse_id: "sorted (rev (map f xs)) \<Longrightarrow> sort_reverse f xs = xs"
  by (simp add: sort_reverse_def rev_map sort_key_id_if_sorted)

lemma set_sort_reverse: "set (sort_reverse f xs) = set xs"
  by (simp add: sort_reverse_def)

lemma mset_sort_reverse: "mset (sort_reverse f xs) = mset xs"
  by (simp add: sort_reverse_def)

lemma length_sort_reverse: "length (sort_reverse f xs) = length xs"
  by (simp add: sort_reverse_def)

lemma sort_keys_Inr: "sort_keys rs js = Inr ks \<Longrightarrow> ks = map (\<lambda>j. keyval (rs ! j)) js"
  by (induction js arbitrary: ks) (auto simp: keyval_def split: sum.splits)

lemma sort_keys_ok:
  "\<forall>j\<in>set js. \<exists>k. sort_key_of (rs ! j) = Inr k \<Longrightarrow>
   sort_keys rs js = Inr (map (\<lambda>j. keyval (rs ! j)) js)"
  by (induction js) (auto simp: keyval_def)

lemma zip_map_self: "zip (map g js) js = map (\<lambda>j. (g j, j)) js"
  by (induction js) simp_all

lemma sort_by_compound_Inr:
  assumes "sort_by_compound rs js = Inr js'"
  shows "js' = sort_reverse (\<lambda>j. keyval (rs ! j)) js"
proof -
  from assms obtain ks where ks: "sort_keys rs js = Inr ks"
    and js': "js' = map snd (sort_reverse fst (zip ks js))"
    by (auto simp: sort_by_compound_def split: sum.splits)
  have "zip ks js = map (\<lambda>j. (keyval (rs ! j), j)) js"
    using sort_keys_Inr[OF ks] by (simp add: zip_map_self)
  then show ?thesis
    using js' by (simp add: sort_reverse_map comp_def)
qed

lemma sort_by_compound_ok:
  assumes "\<forall>j\<in>set js. \<exists>k. sort_key_of (rs ! j) = Inr k"
  shows "sort_by_compound rs js = Inr (sort_reverse (\<lambda>j. keyval (rs ! j)) js)"
proof -
  have "sort_keys rs js = Inr (map (\<lambda>j. keyval (rs ! j)) js)"
    using assms by (rule sort_keys_ok)
  then show ?thesis
    by (simp add: sort_by_compound_def zip_map_self sort_reverse_map comp_def)
qed

lemma sort_by_compound_Inl:
  "sort_by_compound rs js = Inl e \<Longrightarrow> \<exists>j\<in>set js. \<forall>k. sort_key_of (rs ! j) \<noteq> Inr k"
  using sort_by_compound_ok[of js rs] by auto

lemma decorated_key: "decorated sia r \<Longrightarrow> \<exists>k. sort_key_of r = Inr k"
  by (auto simp: decorated_def sort_key_of_def getitem_def)

subsection \<open>The sentiment loop\<close>

lemma map_of_setitem_other: "k \<noteq> k' \<Longrightarrow> map_of (setitem r k' v) k = map_of r k"
  by (simp add: setitem_def update_conv')

lemma map_of_setitem_same: "map_of (setitem r k v) k = Some v"
  by (simp add: setitem_def update_conv')

lemma setitem_setitem: "setitem (setitem r k v') k v = setitem r k v"
  by (simp add: setitem_def)

lemma setitem_triv: "map_of r k = Some v \<Longrightarrow> setitem r k v = r"
  by (simp add: setitem_def update_triv)

lemma delete_setitem: "AList.delete k (setitem r k v) = AList.delete k r"
  by (simp add: setitem_def delete_update_same)

lemma loop_pointwise:
  "sentiment_loop sia rs js = (rs', x) \<Longrightarrow>
   rs' ! i = rs ! i \<or>
   (i < length rs \<and> i \<in> set js \<and>
    (\<exists>b. map_of (rs ! i) ''ReviewBody'' = Some (Str b) \<and>
         rs' ! i = setitem (rs ! i) ''sentiment'' (Scores (sia b))))"
proof (induction js arbitrary: rs)
  case Nil
  then show ?case by simp
next
  case (Cons j js)
  show ?case
  proof (cases "getitem (rs ! j) ''ReviewBody''")
    case (Inl e)
    with Cons.prems show ?thesis by simp
  next
    case (Inr v)
    show ?thesis
    proof (cases v)
      case (Scores sc)
      with Inr Cons.prems show ?thesis by (simp add: analyze_sentiment_def)
    next
      case (Str b)
      let ?rs1 = "rs[j := setitem (rs ! j) ''sentiment'' (Scores (sia b))]"
      from Str Inr Cons.prems have run: "sentiment_loop sia ?rs1 js = (rs', x)"
        by (simp add: analyze_sentiment_def)
      from Inr Str have body: "map_of (rs ! j) ''ReviewBody'' = Some (Str b)"
        by (simp add: getitem_def split: option.splits)
      note ih = Cons.IH[OF run]
      show ?thesis
      proof (cases "i = j \<and> j < length rs")
        case True
        then have at: "?rs1 ! i = setitem (rs ! i) ''sentiment'' (Scores (sia b))" by simp
        from True body have body1: "map_of (?rs1 ! i) ''ReviewBody'' = Some (Str b)"
          by (simp add: map_of_setitem_other)
        from ih show ?thesis
        proof
          assume "rs' ! i = ?rs1 ! i"
          with at True body show ?thesis by auto
        next
          assume "i < length ?rs1 \<and> i \<in> set js \<and>
            (\<exists>b. map_of (?rs1 ! i) ''ReviewBody'' = Some (Str b) \<and>
                 rs' ! i = setitem (?rs1 ! i) ''sentiment'' (Scores (sia b)))"
          then have "rs' ! i = setitem (?rs1 ! i) ''sentiment'' (Scores (sia b))"
            using body1 by auto
          then have "rs' ! i = setitem (rs ! i) ''sentiment'' (Scores (sia b))"
            by (simp add: at setitem_setitem)
          with True body show ?thesis by auto
        qed
      next
        case False
        then have same: "?rs1 ! i = rs ! i"
          by (cases "i = j") (simp_all add: list_update_beyond)
        from ih show ?thesis
          by (auto simp: same)
      qed
    qed
  qed
qed

lemma loop_length: "sentiment_loop sia rs js = (rs', x) \<Longrightarrow> length rs' = length rs"
proof (induction js arbitrary: rs)
  case Nil
  then show ?case by simp
next
  case (Cons j js)
  then show ?case
    by (auto simp: analyze_sentiment_def split: sum.splits pyval.splits)
qed

lemma loop_other_keys:
  assumes "sentiment_loop sia rs js = (rs', x)" and "k \<noteq> ''sentiment''"
  shows "map_of (rs' ! i) k = map_of (rs ! i) k"
  using loop_pointwise[OF assms(1), of i] assms(2) by (auto simp: map_of_setitem_other)

lemma loop_delete:
  assumes "sentiment_loop sia rs js = (rs', x)"
  shows "map (AList.delete ''sentiment'') rs' = map (AList.delete ''sentiment'') rs"
proof (rule nth_equalityI)
  show "length (map (AList.delete ''sentiment'') rs') = length (map (AList.delete ''sentiment'') rs)"
    using loop_length[OF assms] by simp
next
  fix i assume "i < length (map (AList.delete ''sentiment'') rs')"
  then have i: "i < length rs'" "i < length rs" using loop_length[OF assms] by simp_all
  have "AList.delete ''sentiment'' (rs' ! i) = AList.delete ''sentiment'' (rs ! i)"
    using loop_pointwise[OF assms, of i] by (auto simp: delete_setitem)
  with i show "map (AList.delete ''sentiment'') rs' ! i = map (AList.delete ''sentiment'') rs ! i"
    by simp
qed

lemma loop_keeps_decorated:
  assumes "sentiment_loop sia rs js = (rs', x)" and "decorated sia (rs ! i)"
  shows "decorated sia (rs' ! i)"
  using loop_pointwise[OF assms(1), of i] assms(2)
  by (auto simp: decorated_def map_of_setitem_other map_of_setitem_same)

lemma loop_decorates:
  "sentiment_loop sia rs js = (rs', None) \<Longrightarrow> \<forall>j\<in>set js. j < length rs \<Longrightarrow>
   \<forall>j\<in>set js. decorated sia (rs' ! j)"
proof (induction js arbitrary: rs)
  case Nil
  then show ?case by simp
next
  case (Cons j js)
  from Cons.prems(1) obtain b where body: "map_of (rs ! j) ''ReviewBody'' = Some (Str b)"
    and run: "sentiment_loop sia (rs[j := setitem (rs ! j) ''sentiment'' (Scores (sia b))]) js
        = (rs', None)"
    by (auto simp: analyze_sentiment_def getitem_def split: option.splits sum.splits pyval.splits)
  let ?rs1 = "rs[j := setitem (rs ! j) ''sentiment'' (Scores (sia b))]"
  from Cons.prems(2) have "j < length rs" by simp
  then have "decorated sia (?rs1 ! j)"
    using body by (simp add: decorated_def map_of_setitem_other map_of_setitem_same)
  then have "decorated sia (rs' ! j)" by (rule loop_keeps_decorated[OF run])
  moreover have "\<forall>j\<in>set js. decorated sia (rs' ! j)"
    using Cons.IH[OF run] Cons.prems(2) by simp
  ultimately show ?case by simp
qed

lemma loop_fixpoint:
  "\<forall>j\<in>set js. decorated sia (rs ! j) \<Longrightarrow> sentiment_loop sia rs js = (rs, None)"
proof (induction js)
  case Nil
  then show ?case by simp
next
  case (Cons j js)
  then obtain b where b: "map_of (rs ! j) ''ReviewBody'' = Some (Str b)"
      "map_of (rs ! j) ''sentiment'' = Some (Scores (sia b))"
    by (auto simp: decorated_def)
  then have "rs[j := setitem (rs ! j) ''sentiment'' (Scores (sia b))] = rs"
    by (simp add: setitem_triv)
  with b Cons show ?case
    by (simp add: getitem_def analyze_sentiment_def)
qed

lemma loop_idem:
  "sentiment_loop sia rs js = (rs', x) \<Longrightarrow> \<forall>j\<in>set js. j < length rs \<Longrightarrow>
   sentiment_loop sia rs' js = (rs', x)"
proof (induction js arbitrary: rs)
  case Nil
  then show ?case by simp
next
  case (Cons j js)
  show ?case
  proof (cases "\<exists>b. map_of (rs ! j) ''ReviewBody'' = Some (Str b)")
    case False
    with Cons.prems(1) have "rs' = rs"
      by (auto simp: analyze_sentiment_def getitem_def split: option.splits sum.splits pyval.splits)
    with Cons.prems(1) show ?thesis by simp
  next
    case True
    then obtain b where body: "map_of (rs ! j) ''ReviewBody'' = Some (Str b)" by blast
    let ?rs1 = "rs[j := setitem (rs ! j) ''sentiment'' (Scores (sia b))]"
    from body Cons.prems(1) have run: "sentiment_loop sia ?rs1 js = (rs', x)"
      by (simp add: analyze_sentiment_def getitem_def)
    from Cons.prems(2) have j: "j < length rs" by simp
    then have "decorated sia (?rs1 ! j)"
      using body by (simp add: decorated_def map_of_setitem_other map_of_setitem_same)
    then have dec: "decorated sia (rs' ! j)" by (rule loop_keeps_decorated[OF run])
    have body': "map_of (rs' ! j) ''ReviewBody'' = Some (Str b)"
      using loop_other_keys[OF Cons.prems(1), of "''ReviewBody''" j] body by simp
    with dec have sent: "map_of (rs' ! j) ''sentiment'' = Some (Scores (sia b))"
      by (auto simp: decorated_def)
    then have fixed: "rs'[j := setitem (rs' ! j) ''sentiment'' (Scores (sia b))] = rs'"
      by (simp add: setitem_triv)
    have "sentiment_loop sia rs' js = (rs', x)"
      using Cons.IH[OF run] Cons.prems(2) by simp
    with body' fixed show ?thesis
      by (simp add: getitem_def analyze_sentiment_def)
  qed
qed

subsection \<open>The filters\<close>

lemma comprehension_Inr:
  "comprehension c xs = Inr ys \<Longrightarrow> ys = filter (\<lambda>x. c x = Inr True) xs"
  by (induction xs arbitrary: ys) (auto split: sum.splits)

lemma comprehension_defined:
  "comprehension c xs = Inr ys \<Longrightarrow> x \<in> set xs \<Longrightarrow> \<exists>b. c x = Inr b"
  by (induction xs arbitrary: ys) (auto split: sum.splits)

lemma comprehension_ok:
  "\<forall>x\<in>set xs. \<exists>b. c x = Inr b \<Longrightarrow> comprehension c xs = Inr (filter (\<lambda>x. c x = Inr True) xs)"
  by (induction xs) auto

lemma comprehension_cong:
  "\<forall>x\<in>set xs. c x = c' x \<Longrightarrow> comprehension c xs = comprehension c' xs"
proof (induction xs)
  case Nil
  show ?case by simp
next
  case (Cons a xs)
  then have "c a = c' a" "comprehension c xs = comprehension c' xs" by simp_all
  then show ?case by (simp split: sum.splits)
qed

lemma in_range_Global: "in_range rs Global"
  by (simp add: in_range_def deref_def)

lemma deref_same: "length rs' = length rs \<Longrightarrow> deref rs' fr = deref rs fr"
  by (simp add: deref_def split: listref.splits)

lemma in_range_Fresh:
  "comprehension c (deref rs fr) = Inr js \<Longrightarrow> in_range rs fr \<Longrightarrow> in_range rs (Fresh js)"
  by (drule comprehension_Inr) (simp add: in_range_def deref_def)

lemma filter_location_range:
  assumes "filter_location rs l fr = Inr fr'" and "in_range rs fr"
  shows "in_range rs fr'"
proof (cases "truthy l")
  case False
  with assms show ?thesis by (simp add: filter_location_def)
next
  case True
  with assms(1) obtain js where
    "comprehension (\<lambda>i. location_is (the l) (rs ! i)) (deref rs fr) = Inr js" "fr' = Fresh js"
    by (auto simp: filter_location_def split: if_splits sum.splits)
  with assms(2) show ?thesis using in_range_Fresh by blast
qed

lemma filter_start_date_range:
  assumes "filter_start_date rs s fr = Inr fr'" and "in_range rs fr"
  shows "in_range rs fr'"
proof (cases "truthy s")
  case False
  with assms show ?thesis by (simp add: filter_start_date_def)
next
  case True
  with assms(1) obtain js dt where
    "comprehension (\<lambda>i. not_before dt (rs ! i)) (deref rs fr) = Inr js" "fr' = Fresh js"
    by (auto simp: filter_start_date_def split: if_splits sum.splits)
  with assms(2) show ?thesis using in_range_Fresh by blast
qed

lemma filter_end_date_range:
  assumes "filter_end_date rs s fr = Inr fr'" and "in_range rs fr"
  shows "in_range rs fr'"
proof (cases "truthy s")
  case False
  with assms show ?thesis by (simp add: filter_end_date_def)
next
  case True
  with assms(1) obtain js dt where
    "comprehension (\<lambda>i. not_after dt (rs ! i)) (deref rs fr) = Inr js" "fr' = Fresh js"
    by (auto simp: filter_end_date_def split: if_splits sum.splits)
  with assms(2) show ?thesis using in_range_Fresh by blast
qed

lemma same_fields_getitem:
  assumes "same_fields rs rs'" and "k \<noteq> ''sentiment''"
  shows "getitem (rs' ! i) k = getitem (rs ! i) k"
proof -
  have "map_of (rs' ! i) k = map_of (rs ! i) k"
    using assms unfolding same_fields_def by blast
  then show ?thesis unfolding getitem_def by simp
qed

lemma same_fields_location_is:
  assumes "same_fields rs rs'"
  shows "location_is l (rs' ! i) = location_is l (rs ! i)"
  unfolding location_is_def using same_fields_getitem[OF assms, of "''Location''" i] by simp

lemma same_fields_timestamp_of:
  assumes "same_fields rs rs'"
  shows "timestamp_of (rs' ! i) = timestamp_of (rs ! i)"
  unfolding timestamp_of_def using same_fields_getitem[OF assms, of "''Timestamp''" i] by simp

lemma same_fields_deref:
  assumes "same_fields rs rs'"
  shows "deref rs' fr = deref rs fr"
proof -
  have "length rs' = length rs" using assms unfolding same_fields_def by blast
  then show ?thesis by (rule deref_same)
qed

lemma same_fields_filter_location:
  assumes "same_fields rs rs'"
  shows "filter_location rs' l fr = filter_location rs l fr"
proof -
  have "(\<lambda>i. location_is (the l) (rs' ! i)) = (\<lambda>i. location_is (the l) (rs ! i))"
    using same_fields_location_is[OF assms] by blast
  then show ?thesis unfolding filter_location_def same_fields_deref[OF assms] by simp
qed

lemma same_fields_filter_start_date:
  assumes "same_fields rs rs'"
  shows "filter_start_date rs' s fr = filter_start_date rs s fr"
proof -
  have "\<And>dt. (\<lambda>i. not_before dt (rs' ! i)) = (\<lambda>i. not_before dt (rs ! i))"
    unfolding not_before_def same_fields_timestamp_of[OF assms] by (rule refl)
  then show ?thesis unfolding filter_start_date_def same_fields_deref[OF assms]
    by (simp split: sum.splits)
qed

lemma same_fields_filter_end_date:
  assumes "same_fields rs rs'"
  shows "filter_end_date rs' s fr = filter_end_date rs s fr"
proof -
  have "\<And>dt. (\<lambda>i. not_after dt (rs' ! i)) = (\<lambda>i. not_after dt (rs ! i))"
    unfolding not_after_def same_fields_timestamp_of[OF assms] by (rule refl)
  then show ?thesis unfolding filter_end_date_def same_fields_deref[OF assms]
    by (simp split: sum.splits)
qed

lemma loop_same_fields:
  assumes "sentiment_loop sia rs js = (rs', x)"
  shows "same_fields rs rs'"
  unfolding same_fields_def using loop_length[OF assms] loop_other_keys[OF assms] by blast

subsection \<open>The GET branch\<close>

lemma same_fields_filtered_reviews:
  assumes "same_fields rs rs'"
  shows "filtered_reviews rs' qp = filtered_reviews rs qp"
  unfolding filtered_reviews_def same_fields_filter_location[OF assms]
    same_fields_filter_start_date[OF assms] same_fields_filter_end_date[OF assms]
  by (rule refl)

lemma filtered_reviews_InrE:
  assumes "filtered_reviews rs qp = Inr fr"
  obtains location start_date end_date fr1 fr2 where
    "get_first qp ''location'' = Inr location"
    "get_first qp ''start_date'' = Inr start_date"
    "get_first qp ''end_date'' = Inr end_date"
    "filter_location rs location Global = Inr fr1"
    "filter_start_date rs start_date fr1 = Inr fr2"
    "filter_end_date rs end_date fr2 = Inr fr"
  using assms unfolding filtered_reviews_def by (auto split: sum.splits)

lemma filtered_reviews_range:
  assumes "filtered_reviews rs qp = Inr fr"
  shows "in_range rs fr"
proof -
  from assms obtain location start_date end_date fr1 fr2 where
    s: "filter_location rs location Global = Inr fr1"
    "filter_start_date rs start_date fr1 = Inr fr2"
    "filter_end_date rs end_date fr2 = Inr fr"
    by (rule filtered_reviews_InrE)
  have "in_range rs fr1" using s(1) in_range_Global by (rule filter_location_range)
  then have "in_range rs fr2" using s(2) filter_start_date_range by blast
  then show ?thesis using s(3) filter_end_date_range by blast
qed

lemma filter_location_Global:
  "filter_location rs l fr = Inr Global \<Longrightarrow> \<not> truthy l \<and> fr = Global"
  by (auto simp: filter_location_def split: if_splits sum.splits)

lemma filter_start_date_Global:
  "filter_start_date rs l fr = Inr Global \<Longrightarrow> \<not> truthy l \<and> fr = Global"
  by (auto simp: filter_start_date_def split: if_splits sum.splits)

lemma filter_end_date_Global:
  "filter_end_date rs l fr = Inr Global \<Longrightarrow> \<not> truthy l \<and> fr = Global"
  by (auto simp: filter_end_date_def split: if_splits sum.splits)

lemma filtered_reviews_Global:
  assumes "filtered_reviews rs qp = Inr Global"
  shows "filtered_reviews rs' qp = Inr Global"
proof -
  from assms obtain location start_date end_date fr1 fr2 where
    g: "get_first qp ''location'' = Inr location"
    "get_first qp ''start_date'' = Inr start_date"
    "get_first qp ''end_date'' = Inr end_date" and
    s: "filter_location rs location Global = Inr fr1"
    "filter_start_date rs start_date fr1 = Inr fr2"
    "filter_end_date rs end_date fr2 = Inr Global"
    by (rule filtered_reviews_InrE)
  from s(3) have e: "\<not> truthy end_date" "fr2 = Global" using filter_end_date_Global by blast+
  with s(2) have d: "\<not> truthy start_date" "fr1 = Global" using filter_start_date_Global by blast+
  with s(1) have l: "\<not> truthy location" using filter_location_Global by blast
  show ?thesis
    using g e(1) d(1) l
    by (simp add: filtered_reviews_def filter_location_def filter_start_date_def
        filter_end_date_def)
qed

lemma handle_get_sorted:
  assumes fr: "filtered_reviews rs qp = Inr fr"
    and run: "sentiment_loop sia rs (deref rs fr) = (rs', None)"
  shows "handle_get sia rs qp =
    ((case fr of Global \<Rightarrow> sort_reverse keyval (map ((!) rs') (deref rs fr)) | Fresh x \<Rightarrow> rs'),
     Returned \<lparr>status = ''200 OK'',
       body = ReviewsJ (sort_reverse keyval (map ((!) rs') (deref rs fr)))\<rparr>)"
proof -
  have len: "length rs' = length rs" using run by (rule loop_length)
  then have d: "deref rs' fr = deref rs fr" by (rule deref_same)
  have "\<forall>j\<in>set (deref rs fr). j < length rs"
    using filtered_reviews_range[OF fr] by (simp add: in_range_def)
  then have "\<forall>j\<in>set (deref rs fr). decorated sia (rs' ! j)"
    using loop_decorates[OF run] by blast
  then have "\<forall>j\<in>set (deref rs fr). \<exists>k. sort_key_of (rs' ! j) = Inr k"
    using decorated_key by blast
  then have "sort_by_compound rs' (deref rs fr) =
      Inr (sort_reverse (\<lambda>j. keyval (rs' ! j)) (deref rs fr))"
    by (rule sort_by_compound_ok)
  moreover have "map ((!) rs') (sort_reverse (\<lambda>j. keyval (rs' ! j)) (deref rs fr)) =
      sort_reverse keyval (map ((!) rs') (deref rs fr))"
    by (simp add: sort_reverse_map)
  ultimately show ?thesis
    using fr run d by (simp add: handle_get_def Let_def)
qed

lemma handle_get_raised:
  assumes fr: "filtered_reviews rs qp = Inr fr"
    and run: "sentiment_loop sia rs (deref rs fr) = (rs', Some e)"
  shows "handle_get sia rs qp = (rs', Raised e)"
  using fr run by (simp add: handle_get_def)

lemma handle_get_early:
  "filtered_reviews rs qp = Inl out \<Longrightarrow> handle_get sia rs qp = (rs, out)"
  by (simp add: handle_get_def)

lemma map_nth_upt: "length xs = n \<Longrightarrow> map ((!) xs) [0..<n] = xs"
  using map_nth[of xs] by simp

lemma get_twice: "handle_get sia (fst (handle_get sia rs qp)) qp = handle_get sia rs qp"
proof (cases "filtered_reviews rs qp")
  case (Inl out)
  then show ?thesis by (simp add: handle_get_early)
next
  case (Inr fr)
  obtain rs' x where run: "sentiment_loop sia rs (deref rs fr) = (rs', x)"
    by (cases "sentiment_loop sia rs (deref rs fr)") blast
  have sf: "same_fields rs rs'" using run by (rule loop_same_fields)
  have fr': "filtered_reviews rs' qp = Inr fr"
    using same_fields_filtered_reviews[OF sf, of qp] Inr by simp
  have len: "length rs' = length rs" using run by (rule loop_length)
  have d: "deref rs' fr = deref rs fr" using len by (rule deref_same)
  have rng: "\<forall>j\<in>set (deref rs fr). j < length rs"
    using filtered_reviews_range[OF Inr] by (simp add: in_range_def)
  have run': "sentiment_loop sia rs' (deref rs' fr) = (rs', x)"
    unfolding d using run rng by (rule loop_idem)
  show ?thesis
  proof (cases x)
    case (Some e)
    have "handle_get sia rs qp = (rs', Raised e)"
      using Inr run Some by (simp add: handle_get_raised)
    moreover have "handle_get sia rs' qp = (rs', Raised e)"
      using fr' run' Some by (simp add: handle_get_raised)
    ultimately show ?thesis by simp
  next
    case None
    let ?out = "sort_reverse keyval (map ((!) rs') (deref rs fr))"
    have first: "handle_get sia rs qp =
        ((case fr of Global \<Rightarrow> ?out | Fresh x \<Rightarrow> rs'),
         Returned \<lparr>status = ''200 OK'', body = ReviewsJ ?out\<rparr>)"
      using Inr run None by (simp add: handle_get_sorted)
    show ?thesis
    proof (cases fr)
      case (Fresh js)
      have "handle_get sia rs' qp =
        ((case fr of Global \<Rightarrow> sort_reverse keyval (map ((!) rs') (deref rs' fr)) | Fresh x \<Rightarrow> rs'),
         Returned \<lparr>status = ''200 OK'',
           body = ReviewsJ (sort_reverse keyval (map ((!) rs') (deref rs' fr)))\<rparr>)"
        using fr' run' None by (simp add: handle_get_sorted)
      with first Fresh d show ?thesis by simp
    next
      case Global
      have out: "?out = sort_reverse keyval rs'"
        using Global len by (simp add: deref_def map_nth_upt)
      have dec: "\<forall>j<length rs'. decorated sia (rs' ! j)"
        using loop_decorates[of sia rs "deref rs fr" rs'] run None rng Global len
        by (simp add: deref_def)
      have "\<forall>r\<in>set ?out. decorated sia r"
        unfolding out set_sort_reverse using dec by (auto simp: in_set_conv_nth)
      then have "\<forall>j\<in>set (deref ?out Global). decorated sia (?out ! j)"
        by (simp add: deref_def)
      then have run2: "sentiment_loop sia ?out (deref ?out Global) = (?out, None)"
        by (rule loop_fixpoint)
      have fr2: "filtered_reviews ?out qp = Inr Global"
        using Inr Global filtered_reviews_Global by blast
      have "sorted (rev (map keyval ?out))" unfolding out by (rule sort_reverse_sorted)
      then have id: "sort_reverse keyval ?out = ?out" by (rule sort_reverse_id)
      have "map ((!) ?out) (deref ?out Global) = ?out"
        by (simp add: deref_def map_nth_upt)
      then have "handle_get sia ?out qp =
          (?out, Returned \<lparr>status = ''200 OK'', body = ReviewsJ ?out\<rparr>)"
        using handle_get_sorted[OF fr2 run2] id by simp
      with first Global show ?thesis by simp
    qed
  qed
qed

subsection \<open>Reading the parameters\<close>

lemma empty_not_allowed: "[] \<notin> set ALLOWED_LOCATIONS"
  by (simp add: ALLOWED_LOCATIONS_def)

lemma get_first_Cons: "d k = Some (v # vs) \<Longrightarrow> get_first d k = Inr (Some v)"
  by (simp add: get_first_def)

lemma get_first_defined: "d k \<noteq> Some [] \<Longrightarrow> \<exists>v. get_first d k = Inr v"
  by (cases "d k") (auto simp: get_first_def split: list.splits)

subsection \<open>Printing digits\<close>

lemma char_of_digits:
  "char_of (48::nat) = CHR ''0''" "char_of (49::nat) = CHR ''1''" "char_of (50::nat) = CHR ''2''"
  "char_of (51::nat) = CHR ''3''" "char_of (52::nat) = CHR ''4''" "char_of (53::nat) = CHR ''5''"
  "char_of (54::nat) = CHR ''6''" "char_of (55::nat) = CHR ''7''" "char_of (56::nat) = CHR ''8''"
  "char_of (57::nat) = CHR ''9''"
  by code_simp+

lemma digit_char_nth: "digit_char k = ''0123456789'' ! (k mod 10)"
proof -
  have "k mod 10 < 10" by simp
  then consider "k mod 10 = 0" | "k mod 10 = 1" | "k mod 10 = 2" | "k mod 10 = 3"
    | "k mod 10 = 4" | "k mod 10 = 5" | "k mod 10 = 6" | "k mod 10 = 7" | "k mod 10 = 8"
    | "k mod 10 = 9"
    by atomize_elim arith
  then show ?thesis
    by cases (simp_all add: digit_char_def char_of_digits)
qed

subsection \<open>What a 200 response holds\<close>

lemma filter_location_Inl:
  "filter_location rs l fr = Inl out \<Longrightarrow> (\<exists>e. out = Raised e) \<or> out = Returned invalid_location"
  by (auto simp: filter_location_def split: if_splits sum.splits)

lemma filtered_reviews_Inl:
  "filtered_reviews rs qp = Inl out \<Longrightarrow> (\<exists>e. out = Raised e) \<or> out = Returned invalid_location"
  unfolding filtered_reviews_def
  by (auto split: sum.splits dest: filter_location_Inl)

lemma handle_get_200E:
  assumes "handle_get sia rs qp = (rs'', Returned \<lparr>status = ''200 OK'', body = ReviewsJ out\<rparr>)"
  obtains fr rs' where "filtered_reviews rs qp = Inr fr"
    "sentiment_loop sia rs (deref rs fr) = (rs', None)"
    "out = sort_reverse keyval (map ((!) rs') (deref rs fr))"
    "rs'' = (case fr of Global \<Rightarrow> out | Fresh x \<Rightarrow> rs')"
proof (cases "filtered_reviews rs qp")
  case (Inl o1)
  then have "handle_get sia rs qp = (rs, o1)" by (rule handle_get_early)
  with assms have "o1 = Returned \<lparr>status = ''200 OK'', body = ReviewsJ out\<rparr>" by simp
  with filtered_reviews_Inl[OF Inl] have False by (auto simp: invalid_location_def)
  then show ?thesis ..
next
  case (Inr fr)
  obtain rs' x where run: "sentiment_loop sia rs (deref rs fr) = (rs', x)"
    by (cases "sentiment_loop sia rs (deref rs fr)") blast
  show ?thesis
  proof (cases x)
    case (Some e)
    with Inr run have "handle_get sia rs qp = (rs', Raised e)" by (simp add: handle_get_raised)
    with assms show ?thesis by simp
  next
    case None
    with run have run': "sentiment_loop sia rs (deref rs fr) = (rs', None)" by simp
    note h = handle_get_sorted[OF Inr run']
    from h assms have o: "out = sort_reverse keyval (map ((!) rs') (deref rs fr))"
      and r0: "rs'' = (case fr of Global \<Rightarrow> sort_reverse keyval (map ((!) rs') (deref rs fr))
          | Fresh x \<Rightarrow> rs')"
      by simp_all
    from r0 o have r: "rs'' = (case fr of Global \<Rightarrow> out | Fresh x \<Rightarrow> rs')"
      by (simp split: listref.splits)
    show ?thesis by (rule that[OF Inr run' o r])
  qed
qed

lemma location_is_True:
  "location_is l r = Inr True \<longleftrightarrow> map_of r ''Location'' = Some (Str l)"
  by (auto simp: location_is_def getitem_def split: option.splits)

lemma not_before_True:
  "not_before sd r = Inr True \<longleftrightarrow> (\<exists>t. timestamp_of r = Inr t \<and> dt_le sd t)"
  by (auto simp: not_before_def split: sum.splits)

lemma not_after_True:
  "not_after ed r = Inr True \<longleftrightarrow> (\<exists>t. timestamp_of r = Inr t \<and> dt_le t ed)"
  by (auto simp: not_after_def split: sum.splits)

lemma filter_location_Inr:
  assumes "filter_location rs l fr = Inr fr'"
  shows "deref rs fr' =
    filter (\<lambda>i. truthy l \<longrightarrow> map_of (rs ! i) ''Location'' = Some (Str (the l))) (deref rs fr)"
proof (cases "truthy l")
  case False
  with assms show ?thesis by (simp add: filter_location_def)
next
  case True
  with assms obtain js where
    c: "comprehension (\<lambda>i. location_is (the l) (rs ! i)) (deref rs fr) = Inr js"
    and f: "fr' = Fresh js"
    by (auto simp: filter_location_def split: if_splits sum.splits)
  from comprehension_Inr[OF c] f True show ?thesis
    by (simp add: deref_def location_is_True)
qed

lemma filter_start_date_Inr:
  assumes "filter_start_date rs s fr = Inr fr'"
  shows "deref rs fr' =
    filter (\<lambda>i. truthy s \<longrightarrow>
        (\<exists>sd t. strptime_date (the s) = Inr sd \<and> timestamp_of (rs ! i) = Inr t \<and> dt_le sd t))
      (deref rs fr)"
proof (cases "truthy s")
  case False
  with assms show ?thesis by (simp add: filter_start_date_def)
next
  case True
  with assms obtain js sd where sd: "strptime_date (the s) = Inr sd" and
    c: "comprehension (\<lambda>i. not_before sd (rs ! i)) (deref rs fr) = Inr js"
    and f: "fr' = Fresh js"
    by (auto simp: filter_start_date_def split: if_splits sum.splits)
  from comprehension_Inr[OF c] f True sd show ?thesis
    by (simp add: deref_def not_before_True)
qed

lemma filter_end_date_Inr:
  assumes "filter_end_date rs s fr = Inr fr'"
  shows "deref rs fr' =
    filter (\<lambda>i. truthy s \<longrightarrow>
        (\<exists>ed t. strptime_date (the s) = Inr ed \<and> timestamp_of (rs ! i) = Inr t \<and> dt_le t ed))
      (deref rs fr)"
proof (cases "truthy s")
  case False
  with assms show ?thesis by (simp add: filter_end_date_def)
next
  case True
  with assms obtain js ed where ed: "strptime_date (the s) = Inr ed" and
    c: "comprehension (\<lambda>i. not_after ed (rs ! i)) (deref rs fr) = Inr js"
    and f: "fr' = Fresh js"
    by (auto simp: filter_end_date_def split: if_splits sum.splits)
  from comprehension_Inr[OF c] f True ed show ?thesis
    by (simp add: deref_def not_after_True)
qed

lemma map_nth_filter: "map ((!) xs) (filter (\<lambda>i. P (xs ! i)) [0..<length xs]) = filter P xs"
proof -
  have "map ((!) xs) (filter (\<lambda>i. P (xs ! i)) [0..<length xs]) =
      filter P (map ((!) xs) [0..<length xs])"
    by (simp add: filter_map comp_def)
  then show ?thesis by (simp add: map_nth)
qed

subsection \<open>Running the examples\<close>

lemmas eval_defs = call_def handle_get_def filtered_reviews_def get_first_def filter_location_def
  filter_start_date_def filter_end_date_def deref_def getitem_def analyze_sentiment_def
  setitem_def sort_by_compound_def sort_key_of_def sort_reverse_def example_request_def
  example_reviews_def example_sia_def location_is_def timestamp_of_def not_before_def
  not_after_def Let_def strptime_date_def strptime_ts_def p_date_def p_time_def p_spaces_def
  is_digit_def digit_val_def is_space_def mk_datetime_def valid_datetime_def days_in_month_def
  is_leap_def dt_le_def dt_key_def ALLOWED_LOCATIONS_def

lemma decorated_sort_key: "decorated sia r \<Longrightarrow> sort_key_of r = Inr (keyval r)"
  by (auto simp: decorated_def sort_key_of_def getitem_def keyval_def)

lemma sorted_output_decorated:
  assumes fr: "filtered_reviews rs qp = Inr fr"
    and run: "sentiment_loop sia rs (deref rs fr) = (rs', None)"
  shows "\<forall>r\<in>set (map ((!) rs') (deref rs fr)). decorated sia r"
proof -
  have "\<forall>j\<in>set (deref rs fr). j < length rs"
    using filtered_reviews_range[OF fr] by (simp add: in_range_def)
  then have "\<forall>j\<in>set (deref rs fr). decorated sia (rs' ! j)"
    using loop_decorates[OF run] by blast
  then show ?thesis by simp
qed

lemma example_get_all:
  "call example_sia example_reviews (example_request ''GET'' [] []) =
    (example_scored, Returned \<lparr>status = ''200 OK'', body = ReviewsJ example_scored\<rparr>)"
  by (simp add: eval_defs example_scored_def)

lemma example_get_method: "REQUEST_METHOD (example_request ''GET'' q f) = ''GET''"
  by (simp add: example_request_def)

lemma response_decorated:
  assumes "handle_get sia rs qp = (rs'', Returned \<lparr>status = ''200 OK'', body = ReviewsJ out\<rparr>)"
  shows "\<forall>r\<in>set out. decorated sia r"
proof -
  from assms obtain fr rs' where fr: "filtered_reviews rs qp = Inr fr"
    and run: "sentiment_loop sia rs (deref rs fr) = (rs', None)"
    and out: "out = sort_reverse keyval (map ((!) rs') (deref rs fr))"
    by (rule handle_get_200E)
  show ?thesis
    unfolding out set_sort_reverse using fr run by (rule sorted_output_decorated)
qed

subsection \<open>The date filters\<close>

lemma strptime_date_midnight:
  "strptime_date s = Inr d \<Longrightarrow> hour d = 0 \<and> minute d = 0 \<and> second d = 0 \<and> microsecond d = 0"
  by (auto simp: strptime_date_def mk_datetime_def Let_def
      split: option.splits prod.splits list.splits if_splits)

lemma strptime_ts_microsecond: "strptime_ts s = Inr t \<Longrightarrow> microsecond t = 0"
  by (auto simp: strptime_ts_def mk_datetime_def Let_def
      split: option.splits prod.splits list.splits if_splits)

lemma timestamp_of_microsecond: "timestamp_of r = Inr t \<Longrightarrow> microsecond t = 0"
  by (auto simp: timestamp_of_def dest: strptime_ts_microsecond split: sum.splits pyval.splits)

lemma same_day_le_midnight:
  assumes "year t = year d" "month t = month d" "day t = day d"
    and "hour d = 0" "minute d = 0" "second d = 0" "microsecond d = 0" "microsecond t = 0"
  shows "dt_le t d \<longleftrightarrow> hour t = 0 \<and> minute t = 0 \<and> second t = 0"
  using assms by (auto simp: dt_le_def dt_key_def)

lemma filtered_reviews_filter:
  assumes fr: "filtered_reviews rs qp = Inr fr"
    and g: "get_first qp ''location'' = Inr location"
      "get_first qp ''start_date'' = Inr start_date"
      "get_first qp ''end_date'' = Inr end_date"
  shows "map ((!) rs) (deref rs fr) =
    filter (\<lambda>r. (truthy location \<longrightarrow> map_of r ''Location'' = Some (Str (the location))) \<and>
        (truthy start_date \<longrightarrow>
          (\<exists>sd t. strptime_date (the start_date) = Inr sd \<and> timestamp_of r = Inr t \<and> dt_le sd t)) \<and>
        (truthy end_date \<longrightarrow>
          (\<exists>ed t. strptime_date (the end_date) = Inr ed \<and> timestamp_of r = Inr t \<and> dt_le t ed)))
      rs"
    (is "_ = filter ?P rs")
proof -
  from fr obtain l s e fr1 fr2 where
    g': "get_first qp ''location'' = Inr l" "get_first qp ''start_date'' = Inr s"
      "get_first qp ''end_date'' = Inr e" and
    st: "filter_location rs l Global = Inr fr1" "filter_start_date rs s fr1 = Inr fr2"
      "filter_end_date rs e fr2 = Inr fr"
    by (rule filtered_reviews_InrE)
  from g g' have eq: "l = location" "s = start_date" "e = end_date" by simp_all
  have "deref rs fr = filter (\<lambda>i. ?P (rs ! i)) [0..<length rs]"
    unfolding filter_end_date_Inr[OF st(3)] filter_start_date_Inr[OF st(2)]
      filter_location_Inr[OF st(1)] eq
    by (auto simp: deref_def intro: filter_cong)
  then show ?thesis using map_nth_filter[where P="?P" and xs=rs] by simp
qed

lemma loop_delete_nth:
  assumes "sentiment_loop sia rs js = (rs', x)" and "\<forall>j\<in>set ks. j < length rs"
  shows "map (AList.delete ''sentiment'') (map ((!) rs') ks) =
    map (AList.delete ''sentiment'') (map ((!) rs) ks)"
proof -
  have len: "length rs' = length rs" using assms(1) by (rule loop_length)
  have "AList.delete ''sentiment'' (rs' ! j) = AList.delete ''sentiment'' (rs ! j)"
    if "j < length rs" for j
  proof -
    have "map (AList.delete ''sentiment'') rs' ! j = map (AList.delete ''sentiment'') rs ! j"
      using loop_delete[OF assms(1)] by simp
    then show ?thesis using that len by simp
  qed
  then show ?thesis using assms(2) by simp
qed

lemma example_get_until:
  "call example_sia example_reviews example_until =
    ([example_scored ! 1, example_reviews ! 1],
     Returned \<lparr>status = ''200 OK'', body = ReviewsJ [example_scored ! 1]\<rparr>)"
  by (simp add: eval_defs example_until_def example_scored_def)

lemma example_until_params:
  "REQUEST_METHOD example_until = ''GET''"
  "get_first (query_params example_until) ''location'' = Inr None"
  "get_first (query_params example_until) ''start_date'' = Inr None"
  "get_first (query_params example_until) ''end_date'' = Inr (Some ''2024-01-15'')"
  by (simp_all add: example_until_def example_request_def get_first_def)

subsection \<open>What a GET leaves in the store\<close>

lemma handle_get_store_cases:
  obtains (same) "fst (handle_get sia rs qp) = rs"
  | (written) fr rs' x where "filtered_reviews rs qp = Inr fr"
      "sentiment_loop sia rs (deref rs fr) = (rs', x)" "fst (handle_get sia rs qp) = rs'"
  | (sorted) rs' where "filtered_reviews rs qp = Inr Global"
      "sentiment_loop sia rs (deref rs Global) = (rs', None)"
      "fst (handle_get sia rs qp) = sort_reverse keyval rs'"
proof (cases "filtered_reviews rs qp")
  case (Inl out)
  then have "fst (handle_get sia rs qp) = rs" by (simp add: handle_get_early)
  then show ?thesis by (rule same)
next
  case (Inr fr)
  obtain rs' x where run: "sentiment_loop sia rs (deref rs fr) = (rs', x)"
    by (cases "sentiment_loop sia rs (deref rs fr)") blast
  show ?thesis
  proof (cases x)
    case (Some e)
    with Inr run have "fst (handle_get sia rs qp) = rs'" by (simp add: handle_get_raised)
    with Inr run show ?thesis by (rule written)
  next
    case None
    with run have run': "sentiment_loop sia rs (deref rs fr) = (rs', None)" by simp
    note h = handle_get_sorted[OF Inr run']
    show ?thesis
    proof (cases fr)
      case (Fresh js)
      with h have "fst (handle_get sia rs qp) = rs'" by simp
      with Inr run show ?thesis by (rule written)
    next
      case Global
      have len: "length rs' = length rs" using run by (rule loop_length)
      have "map ((!) rs') (deref rs Global) = rs'"
        using len by (simp add: deref_def map_nth_upt)
      with h Global have "fst (handle_get sia rs qp) = sort_reverse keyval rs'" by simp
      with Inr run' Global show ?thesis using sorted by blast
    qed
  qed
qed

lemma truthy_param_not_Global:
  assumes "qp p = Some (v # vs)" "v \<noteq> []" "p \<in> {''location'', ''start_date'', ''end_date''}"
  shows "filtered_reviews rs qp \<noteq> Inr Global"
proof
  assume "filtered_reviews rs qp = Inr Global"
  then obtain l s e fr1 fr2 where
    g: "get_first qp ''location'' = Inr l" "get_first qp ''start_date'' = Inr s"
      "get_first qp ''end_date'' = Inr e" and
    st: "filter_location rs l Global = Inr fr1" "filter_start_date rs s fr1 = Inr fr2"
      "filter_end_date rs e fr2 = Inr Global"
    by (rule filtered_reviews_InrE)
  from st(3) have e: "\<not> truthy e" "fr2 = Global" using filter_end_date_Global by blast+
  with st(2) have s: "\<not> truthy s" "fr1 = Global" using filter_start_date_Global by blast+
  with st(1) have l: "\<not> truthy l" using filter_location_Global by blast
  have "get_first qp p = Inr (Some v)" using assms(1) by (rule get_first_Cons)
  with assms(2,3) g e(1) s(1) l show False by auto
qed

lemma loop_elements:
  assumes "sentiment_loop sia rs js = (rs', x)" and "r \<in> set rs'"
  shows "r \<in> set rs \<or>
    (\<exists>r0\<in>set rs. \<exists>b. map_of r0 ''ReviewBody'' = Some (Str b) \<and>
        r = setitem r0 ''sentiment'' (Scores (sia b)))"
proof -
  have len: "length rs' = length rs" using assms(1) by (rule loop_length)
  from assms(2) obtain i where i: "i < length rs'" "r = rs' ! i"
    by (auto simp: in_set_conv_nth)
  with len have "rs ! i \<in> set rs" by simp
  with loop_pointwise[OF assms(1), of i] i show ?thesis by auto
qed

subsection \<open>When a GET is answered\<close>

lemma get_first_Some:
  "get_first d k = Inr (Some v) \<Longrightarrow> \<exists>vs. d k = Some (v # vs)"
  by (auto simp: get_first_def split: option.splits list.splits)

lemma loop_total:
  "\<forall>j\<in>set js. \<exists>b. map_of (rs ! j) ''ReviewBody'' = Some (Str b) \<Longrightarrow>
   \<exists>rs'. sentiment_loop sia rs js = (rs', None)"
proof (induction js arbitrary: rs)
  case Nil
  show ?case by simp
next
  case (Cons i js)
  then obtain b where b: "map_of (rs ! i) ''ReviewBody'' = Some (Str b)" by auto
  let ?rs1 = "rs[i := setitem (rs ! i) ''sentiment'' (Scores (sia b))]"
  have keep: "map_of (?rs1 ! j) ''ReviewBody'' = map_of (rs ! j) ''ReviewBody''" for j
  proof (cases "j = i \<and> i < length rs")
    case True
    then show ?thesis by (simp add: map_of_setitem_other)
  next
    case False
    then have "?rs1 ! j = rs ! j" by (cases "j = i") (simp_all add: list_update_beyond)
    then show ?thesis by simp
  qed
  have "\<forall>j\<in>set js. \<exists>b. map_of (?rs1 ! j) ''ReviewBody'' = Some (Str b)"
    using Cons.prems by (simp add: keep)
  then obtain rs' where "sentiment_loop sia ?rs1 js = (rs', None)"
    using Cons.IH by blast
  with b show ?case by (simp add: getitem_def analyze_sentiment_def)
qed

lemma well_formed_location_is: "well_formed r \<Longrightarrow> \<exists>b. location_is l r = Inr b"
  by (auto simp: well_formed_def location_is_def getitem_def)

lemma well_formed_timestamp_of: "well_formed r \<Longrightarrow> \<exists>t. timestamp_of r = Inr t"
  by (auto simp: well_formed_def timestamp_of_def getitem_def)

lemma well_formed_body: "well_formed r \<Longrightarrow> \<exists>b. map_of r ''ReviewBody'' = Some (Str b)"
  by (auto simp: well_formed_def)

lemma filter_location_total:
  assumes "\<forall>r\<in>set rs. well_formed r" and "in_range rs fr"
    and "truthy l \<longrightarrow> the l \<in> set ALLOWED_LOCATIONS"
  shows "\<exists>fr'. filter_location rs l fr = Inr fr'"
proof (cases "truthy l")
  case False
  then show ?thesis by (simp add: filter_location_def)
next
  case True
  have "\<forall>i\<in>set (deref rs fr). \<exists>b. location_is (the l) (rs ! i) = Inr b"
    using assms(1,2) well_formed_location_is by (simp add: in_range_def)
  then have "comprehension (\<lambda>i. location_is (the l) (rs ! i)) (deref rs fr) =
      Inr (filter (\<lambda>i. location_is (the l) (rs ! i) = Inr True) (deref rs fr))"
    by (rule comprehension_ok)
  with True assms(3) show ?thesis by (simp add: filter_location_def)
qed

lemma filter_start_date_total:
  assumes "\<forall>r\<in>set rs. well_formed r" and "in_range rs fr"
    and "truthy s \<longrightarrow> (\<exists>d. strptime_date (the s) = Inr d)"
  shows "\<exists>fr'. filter_start_date rs s fr = Inr fr'"
proof (cases "truthy s")
  case False
  then show ?thesis by (simp add: filter_start_date_def)
next
  case True
  with assms(3) obtain d where d: "strptime_date (the s) = Inr d" by blast
  have "\<forall>i\<in>set (deref rs fr). \<exists>b. not_before d (rs ! i) = Inr b"
  proof
    fix i assume "i \<in> set (deref rs fr)"
    then have "well_formed (rs ! i)" using assms(1,2) by (simp add: in_range_def)
    then obtain t where "timestamp_of (rs ! i) = Inr t" using well_formed_timestamp_of by blast
    then show "\<exists>b. not_before d (rs ! i) = Inr b" by (simp add: not_before_def)
  qed
  then have "comprehension (\<lambda>i. not_before d (rs ! i)) (deref rs fr) =
      Inr (filter (\<lambda>i. not_before d (rs ! i) = Inr True) (deref rs fr))"
    by (rule comprehension_ok)
  with True d show ?thesis by (simp add: filter_start_date_def)
qed

lemma filter_end_date_total:
  assumes "\<forall>r\<in>set rs. well_formed r" and "in_range rs fr"
    and "truthy s \<longrightarrow> (\<exists>d. strptime_date (the s) = Inr d)"
  shows "\<exists>fr'. filter_end_date rs s fr = Inr fr'"
proof (cases "truthy s")
  case False
  then show ?thesis by (simp add: filter_end_date_def)
next
  case True
  with assms(3) obtain d where d: "strptime_date (the s) = Inr d" by blast
  have "\<forall>i\<in>set (deref rs fr). \<exists>b. not_after d (rs ! i) = Inr b"
  proof
    fix i assume "i \<in> set (deref rs fr)"
    then have "well_formed (rs ! i)" using assms(1,2) by (simp add: in_range_def)
    then obtain t where "timestamp_of (rs ! i) = Inr t" using well_formed_timestamp_of by blast
    then show "\<exists>b. not_after d (rs ! i) = Inr b" by (simp add: not_after_def)
  qed
  then have "comprehension (\<lambda>i. not_after d (rs ! i)) (deref rs fr) =
      Inr (filter (\<lambda>i. not_after d (rs ! i) = Inr True) (deref rs fr))"
    by (rule comprehension_ok)
  with True d show ?thesis by (simp add: filter_end_date_def)
qed

lemma truthy_the: "truthy x \<Longrightarrow> \<exists>v. x = Some v \<and> v \<noteq> []"
  by (cases x) simp_all

lemma example_reviews_well_formed: "\<forall>r\<in>set example_reviews. well_formed r"
  by (simp add: example_reviews_def well_formed_def eval_defs)

subsection \<open>The POST branch\<close>

lemma post_step:
  assumes "valid_datetime n"
  shows "handle_post u n rs d = (rs @ created (snd (handle_post u n rs d)),
      snd (handle_post u n rs d)) \<and>
    (\<forall>r\<in>set (created (snd (handle_post u n rs d))). acceptable r) \<and>
    (\<exists>r. snd (handle_post u n rs d) = Returned r \<and>
       status r \<in> {''201 Created'', ''400 Bad Request'', ''500 Internal Server Error''})"
proof -
  have ts: "timestamp_of [(''ReviewId'', Str u), (''ReviewBody'', Str b), (''Location'', Str l),
      (''Timestamp'', Str (strftime_ts n))] = Inr (n\<lparr>microsecond := 0\<rparr>)" for b l
    using strptime_strftime[OF assms] by (simp add: timestamp_of_def getitem_def)
  show ?thesis
    by (auto simp: handle_post_def Let_def internal_error_def missing_fields_def
        invalid_location_def acceptable_def ts split: sum.splits)
qed

lemma post_sequence:
  "\<forall>e\<in>set environs. REQUEST_METHOD e = ''POST'' \<and> valid_datetime (now e) \<Longrightarrow>
   serve sia reviews environs = reviews @ accepted sia reviews environs \<and>
   (\<forall>r\<in>set (accepted sia reviews environs). acceptable r) \<and>
   (\<forall>out\<in>set (outcomes sia reviews environs). \<exists>r. out = Returned r \<and>
       status r \<in> {''201 Created'', ''400 Bad Request'', ''500 Internal Server Error''})"
proof (induction environs arbitrary: reviews)
  case Nil
  show ?case by (simp add: accepted_def)
next
  case (Cons e es)
  from Cons.prems have m: "REQUEST_METHOD e = ''POST''" and v: "valid_datetime (now e)"
    by simp_all
  have c: "call sia reviews e = handle_post (uuid4 e) (now e) reviews (review_data e)"
    using m by (simp add: call_def)
  note st = post_step[OF v, of "uuid4 e" reviews "review_data e"]
  let ?out = "snd (call sia reviews e)"
  let ?rs1 = "fst (call sia reviews e)"
  have rs1: "?rs1 = reviews @ created ?out" unfolding c using st by (metis fst_conv)
  have ok1: "\<forall>r\<in>set (created ?out). acceptable r" unfolding c using st by blast
  have st1: "\<exists>r. ?out = Returned r \<and>
       status r \<in> {''201 Created'', ''400 Bad Request'', ''500 Internal Server Error''}"
    unfolding c using st by blast
  have "\<forall>e\<in>set es. REQUEST_METHOD e = ''POST'' \<and> valid_datetime (now e)"
    using Cons.prems by simp
  note ih = Cons.IH[OF this, of ?rs1]
  have acc: "accepted sia reviews (e # es) = created ?out @ accepted sia ?rs1 es"
    by (simp add: accepted_def)
  have "serve sia reviews (e # es) = reviews @ accepted sia reviews (e # es)"
    using ih rs1 acc by simp
  moreover have "\<forall>r\<in>set (accepted sia reviews (e # es)). acceptable r"
    unfolding acc using ok1 ih by auto
  moreover have "\<forall>out\<in>set (outcomes sia reviews (e # es)). \<exists>r. out = Returned r \<and>
       status r \<in> {''201 Created'', ''400 Bad Request'', ''500 Internal Server Error''}"
    using st1 ih by simp
  ultimately show ?case by blast
qed

lemma example_now_valid: "valid_datetime example_now" "1000 \<le> year example_now"
  by (simp_all add: valid_datetime_def example_now_def days_in_month_def)

lemma example_now_printed: "strftime_ts example_now = ''2024-03-09 07:05:59''"
  by (simp add: strftime_ts_def example_now_def pad2_def pad4_def digit_char_nth)

lemma example_posts_served:
  "serve example_sia example_reviews example_posts = example_reviews @ [example_posted]"
  "accepted example_sia example_reviews example_posts = [example_posted]"
  by (simp_all add: example_posts_def example_posted_def accepted_def call_def handle_post_def
      example_request_def get_first_def ALLOWED_LOCATIONS_def example_now_printed Let_def
      internal_error_def missing_fields_def invalid_location_def)

subsection \<open>The bounds on the fields of the dates\<close>

lemma date_filter_dt_le:
  assumes "REQUEST_METHOD environ = ''GET''"
    and "call sia reviews environ =
      (reviews'', Returned \<lparr>status = ''200 OK'', body = ReviewsJ out\<rparr>)"
    and "get_first (query_params environ) ''location'' = Inr location"
    and "get_first (query_params environ) ''start_date'' = Inr start_date"
    and "get_first (query_params environ) ''end_date'' = Inr end_date"
  shows
    "mset (map (AList.delete ''sentiment'') out) =
     mset (map (AList.delete ''sentiment'')
       (filter (\<lambda>r.
          (truthy location \<longrightarrow> map_of r ''Location'' = Some (Str (the location))) \<and>
          (truthy start_date \<longrightarrow>
            (\<exists>sd t. strptime_date (the start_date) = Inr sd \<and> timestamp_of r = Inr t \<and>
                    dt_le sd t)) \<and>
          (truthy end_date \<longrightarrow>
            (\<exists>ed t. strptime_date (the end_date) = Inr ed \<and> timestamp_of r = Inr t \<and>
                    dt_le t ed)))
        reviews)) \<and>
     (\<forall>s d. strptime_date s = Inr d \<longrightarrow>
        hour d = 0 \<and> minute d = 0 \<and> second d = 0 \<and> microsecond d = 0) \<and>
     (\<forall>r t ed. strptime_date (the end_date) = Inr ed \<and> timestamp_of r = Inr t \<and>
        year t = year ed \<and> month t = month ed \<and> day t = day ed \<longrightarrow>
        (dt_le t ed \<longleftrightarrow> hour t = 0 \<and> minute t = 0 \<and> second t = 0))"
proof -
  from assms(1,2) have "handle_get sia reviews (query_params environ) =
      (reviews'', Returned \<lparr>status = ''200 OK'', body = ReviewsJ out\<rparr>)"
    by (simp add: call_def)
  then obtain fr rs' where fr: "filtered_reviews reviews (query_params environ) = Inr fr"
    and run: "sentiment_loop sia reviews (deref reviews fr) = (rs', None)"
    and out: "out = sort_reverse keyval (map ((!) rs') (deref reviews fr))"
    by (rule handle_get_200E)
  have rng: "\<forall>j\<in>set (deref reviews fr). j < length reviews"
    using filtered_reviews_range[OF fr] by (simp add: in_range_def)
  have "mset out = mset (map ((!) rs') (deref reviews fr))"
    unfolding out by (rule mset_sort_reverse)
  then have "mset (map (AList.delete ''sentiment'') out) =
      mset (map (AList.delete ''sentiment'') (map ((!) rs') (deref reviews fr)))"
    by (simp only: mset_map)
  also have "\<dots> = mset (map (AList.delete ''sentiment'') (map ((!) reviews) (deref reviews fr)))"
    by (simp only: loop_delete_nth[OF run rng])
  finally have p1: "mset (map (AList.delete ''sentiment'') out) =
     mset (map (AList.delete ''sentiment'')
       (filter (\<lambda>r.
          (truthy location \<longrightarrow> map_of r ''Location'' = Some (Str (the location))) \<and>
          (truthy start_date \<longrightarrow>
            (\<exists>sd t. strptime_date (the start_date) = Inr sd \<and> timestamp_of r = Inr t \<and>
                    dt_le sd t)) \<and>
          (truthy end_date \<longrightarrow>
            (\<exists>ed t. strptime_date (the end_date) = Inr ed \<and> timestamp_of r = Inr t \<and>
                    dt_le t ed)))
        reviews))"
    unfolding filtered_reviews_filter[OF fr assms(3,4,5)] .
  have p2: "\<forall>s d. strptime_date s = Inr d \<longrightarrow>
        hour d = 0 \<and> minute d = 0 \<and> second d = 0 \<and> microsecond d = 0"
    using strptime_date_midnight by blast
  have p3: "\<forall>r t ed. strptime_date (the end_date) = Inr ed \<and> timestamp_of r = Inr t \<and>
        year t = year ed \<and> month t = month ed \<and> day t = day ed \<longrightarrow>
        (dt_le t ed \<longleftrightarrow> hour t = 0 \<and> minute t = 0 \<and> second t = 0)"
  proof (intro allI impI)
    fix r t ed
    assume a: "strptime_date (the end_date) = Inr ed \<and> timestamp_of r = Inr t \<and>
        year t = year ed \<and> month t = month ed \<and> day t = day ed"
    then have "hour ed = 0 \<and> minute ed = 0 \<and> second ed = 0 \<and> microsecond ed = 0"
      "microsecond t = 0"
      using strptime_date_midnight timestamp_of_microsecond by blast+
    with a show "dt_le t ed \<longleftrightarrow> hour t = 0 \<and> minute t = 0 \<and> second t = 0"
      using same_day_le_midnight[of t ed] by blast
  qed
  show ?thesis by (rule conjI[OF p1 conjI[OF p2 p3]])
qed

lemma dt_le_after_midnight:
  assumes "hour sd = 0" "minute sd = 0" "second sd = 0" "microsecond sd = 0"
  shows "dt_le sd t \<longleftrightarrow>
    (year sd < year t \<or>
     year sd = year t \<and> (month sd < month t \<or> month sd = month t \<and> day sd \<le> day t))"
  using assms by (auto simp: dt_le_def dt_key_def)

lemma dt_le_before_midnight:
  assumes "hour ed = 0" "minute ed = 0" "second ed = 0" "microsecond ed = 0" "microsecond t = 0"
  shows "dt_le t ed \<longleftrightarrow>
    (year t < year ed \<or>
     year t = year ed \<and>
       (month t < month ed \<or>
        month t = month ed \<and>
          (day t < day ed \<or> day t = day ed \<and> hour t = 0 \<and> minute t = 0 \<and> second t = 0)))"
  using assms by (auto simp: dt_le_def dt_key_def)

lemma not_before_fields:
  "(\<exists>sd t. strptime_date s = Inr sd \<and> timestamp_of r = Inr t \<and> dt_le sd t) \<longleftrightarrow>
   (\<exists>sd t. strptime_date s = Inr sd \<and> timestamp_of r = Inr t \<and>
      (year sd < year t \<or>
       year sd = year t \<and> (month sd < month t \<or> month sd = month t \<and> day sd \<le> day t)))"
  using dt_le_after_midnight strptime_date_midnight by blast

lemma not_after_fields:
  "(\<exists>ed t. strptime_date s = Inr ed \<and> timestamp_of r = Inr t \<and> dt_le t ed) \<longleftrightarrow>
   (\<exists>ed t. strptime_date s = Inr ed \<and> timestamp_of r = Inr t \<and>
      (year t < year ed \<or>
       year t = year ed \<and>
         (month t < month ed \<or>
          month t = month ed \<and>
            (day t < day ed \<or>
             day t = day ed \<and> hour t = 0 \<and> minute t = 0 \<and> second t = 0))))"
  using dt_le_before_midnight strptime_date_midnight timestamp_of_microsecond by blast

lemma example_get_between:
  "call example_graded_sia example_dated example_between =
    ([scored (example_dated ! 0) (1 / 5), scored (example_dated ! 1) (1 / 2), example_dated ! 2,
      example_dated ! 3, example_dated ! 4],
     Returned \<lparr>status = ''200 OK'',
       body = ReviewsJ [scored (example_dated ! 1) (1 / 2), scored (example_dated ! 0) (1 / 5)]\<rparr>)"
  by (simp add: eval_defs example_graded_sia_def example_dated_def scored_def example_between_def)

lemma example_between_params:
  "REQUEST_METHOD example_between = ''GET''"
  "get_first (query_params example_between) ''location'' = Inr None"
  "get_first (query_params example_between) ''start_date'' = Inr (Some ''2024-01-14'')"
  "get_first (query_params example_between) ''end_date'' = Inr (Some ''2024-01-15'')"
  by (simp_all add: example_between_def example_request_def get_first_def)

subsection \<open>The order of the compound scores\<close>

lemma decorated_compound:
  "decorated sia r \<Longrightarrow>
   \<exists>sc. map_of r ''sentiment'' = Some (Scores sc) \<and> keyval r = compound sc"
  by (auto simp: decorated_def keyval_def sort_key_of_def getitem_def)

lemma sorted_rev_compound:
  assumes "sorted (rev (map keyval xs))"
    and "\<forall>r\<in>set xs. map_of r ''sentiment'' = Some (Scores (f r)) \<and> keyval r = compound (f r)"
  shows "sorted_wrt (\<lambda>a b. compound b \<le> compound a) (map f xs)"
proof -
  have "map keyval xs = map (\<lambda>r. compound (f r)) xs" using assms(2) by simp
  with assms(1) have "sorted_wrt (\<lambda>a b. b \<le> a) (map (\<lambda>r. compound (f r)) xs)"
    by (simp add: sorted_wrt_rev)
  then show ?thesis by (simp add: sorted_wrt_map)
qed

lemma example_get_ranking:
  "call example_graded_sia example_dated (example_request ''GET'' [] []) =
    (example_ranking, Returned \<lparr>status = ''200 OK'', body = ReviewsJ example_ranking\<rparr>)"
  by (simp add: eval_defs example_graded_sia_def example_dated_def scored_def example_ranking_def)

lemma example_ranking_scores:
  "map (\<lambda>r. (map_of r ''ReviewId'', map_of r ''sentiment'')) example_ranking =
    [(Some (Str ''d2''), Some (Scores \<lparr>neg = 0, neu = 1, pos = 0, compound = 1 / 2\<rparr>)),
     (Some (Str ''d1''), Some (Scores \<lparr>neg = 0, neu = 1, pos = 0, compound = 1 / 5\<rparr>)),
     (Some (Str ''d4''), Some (Scores \<lparr>neg = 0, neu = 1, pos = 0, compound = 1 / 5\<rparr>)),
     (Some (Str ''d5''), Some (Scores \<lparr>neg = 0, neu = 1, pos = 0, compound = 0\<rparr>)),
     (Some (Str ''d3''), Some (Scores \<lparr>neg = 0, neu = 1, pos = 0, compound = - 1 / 2\<rparr>))]"
  by (simp add: example_ranking_def example_dated_def scored_def)

section \<open>The claims\<close>

text \<open>
  C10. A request whose method is neither GET nor POST gets no response: the handler
  falls through both branches and returns \<^verbatim>\<open>None\<close>, \<^verbatim>\<open>start_response\<close> is never called,
  and the list of reviews is as before.
\<close>

theorem other_method_returns_none:
  "REQUEST_METHOD environ \<noteq> ''GET'' \<Longrightarrow> REQUEST_METHOD environ \<noteq> ''POST'' \<Longrightarrow>
   call sia reviews environ = (reviews, ReturnedNone)"
  by (simp add: call_def)

theorem other_method_returns_none_witness:
  "REQUEST_METHOD (example_request ''PUT'' [] []) \<noteq> ''GET'' \<and>
   REQUEST_METHOD (example_request ''PUT'' [] []) \<noteq> ''POST'' \<and>
   call example_sia example_reviews (example_request ''PUT'' [] []) =
     (example_reviews, ReturnedNone)"
  using other_method_returns_none[of "example_request ''PUT'' [] []" example_sia example_reviews]
  by (simp add: example_request_def)

text \<open>
  C5. A GET whose \<^verbatim>\<open>location\<close> is present, not empty and not in the allow-list is
  answered with 400 and the body \<^verbatim>\<open>{"error": "Invalid location"}\<close>; the list of
  reviews is returned as it was (nothing is filtered, scored or written). The two
  hypotheses on the date parameters say that \<^verbatim>\<open>parse_qs\<close> made their lists, which are
  never empty.
\<close>

theorem get_invalid_location:
  assumes "REQUEST_METHOD environ = ''GET''"
    and "query_params environ ''location'' = Some (location # vs)"
    and "location \<noteq> []"
    and "location \<notin> set ALLOWED_LOCATIONS"
    and "query_params environ ''start_date'' \<noteq> Some []"
    and "query_params environ ''end_date'' \<noteq> Some []"
  shows "call sia reviews environ =
    (reviews, Returned \<lparr>status = ''400 Bad Request'', body = ErrorJ ''Invalid location''\<rparr>)"
proof -
  obtain s e where "get_first (query_params environ) ''start_date'' = Inr s"
    "get_first (query_params environ) ''end_date'' = Inr e"
    using assms(5,6) get_first_defined by blast
  moreover have "get_first (query_params environ) ''location'' = Inr (Some location)"
    using assms(2) by (rule get_first_Cons)
  moreover have "filter_location reviews (Some location) Global = Inl (Returned invalid_location)"
    using assms(3,4) by (simp add: filter_location_def)
  ultimately have "filtered_reviews reviews (query_params environ) = Inl (Returned invalid_location)"
    by (simp add: filtered_reviews_def)
  then show ?thesis
    using assms(1) by (simp add: call_def handle_get_early invalid_location_def)
qed

theorem get_invalid_location_witness:
  "REQUEST_METHOD (example_request ''GET'' [(''location'', [''Nowhere, Atlantis''])] []) = ''GET'' \<and>
   query_params (example_request ''GET'' [(''location'', [''Nowhere, Atlantis''])] []) ''location''
     = Some [''Nowhere, Atlantis''] \<and>
   ''Nowhere, Atlantis'' \<notin> set ALLOWED_LOCATIONS \<and>
   call example_sia example_reviews
      (example_request ''GET'' [(''location'', [''Nowhere, Atlantis''])] []) =
     (example_reviews,
      Returned \<lparr>status = ''400 Bad Request'', body = ErrorJ ''Invalid location''\<rparr>)"
  using get_invalid_location[of "example_request ''GET'' [(''location'', [''Nowhere, Atlantis''])] []"
      "''Nowhere, Atlantis''" "[]" example_sia example_reviews]
  by (simp add: example_request_def ALLOWED_LOCATIONS_def)




text \<open>
  C3. A POST with a \<^verbatim>\<open>ReviewBody\<close> that is not empty and a \<^verbatim>\<open>Location\<close> of the allow-list is
  answered with 201 and the new record: the identifier drawn from \<^verbatim>\<open>uuid4\<close> for this
  request, the given body and location, and the clock's time printed as
  \<^verbatim>\<open>YYYY-MM-DD HH:MM:SS\<close> (19 characters, which \<^verbatim>\<open>strptime\<close> reads back to the same second).
  The same record is appended to the list of reviews, and it has no \<^verbatim>\<open>'sentiment'\<close> key.
  The clock is assumed to give a date from the year 1000 on.
\<close>

theorem post_created:
  assumes "REQUEST_METHOD environ = ''POST''"
    and "review_data environ = Inr d"
    and "d ''ReviewBody'' = Some (review_body # bs)"
    and "review_body \<noteq> []"
    and "d ''Location'' = Some (location # ls)"
    and "location \<in> set ALLOWED_LOCATIONS"
    and "valid_datetime (now environ)"
    and "1000 \<le> year (now environ)"
  shows
    "\<exists>timestamp new_review.
       new_review =
         [(''ReviewId'', Str (uuid4 environ)), (''ReviewBody'', Str review_body),
          (''Location'', Str location), (''Timestamp'', Str timestamp)] \<and>
       call sia reviews environ =
         (reviews @ [new_review],
          Returned \<lparr>status = ''201 Created'', body = ReviewJ new_review\<rparr>) \<and>
       timestamp = strftime_ts (now environ) \<and>
       length timestamp = 19 \<and>
       strptime_ts timestamp = Inr ((now environ)\<lparr>microsecond := 0\<rparr>) \<and>
       map_of new_review ''sentiment'' = None"
proof -
  have l: "location \<noteq> []" using assms(6) empty_not_allowed by blast
  have g: "get_first d ''ReviewBody'' = Inr (Some review_body)"
    "get_first d ''Location'' = Inr (Some location)"
    using assms(3,5) by (simp_all add: get_first_Cons)
  have m: "call sia reviews environ =
      handle_post (uuid4 environ) (now environ) reviews (Inr d)"
    using assms(1,2) by (simp add: call_def)
  have "call sia reviews environ =
      (reviews @ [[(''ReviewId'', Str (uuid4 environ)), (''ReviewBody'', Str review_body),
          (''Location'', Str location), (''Timestamp'', Str (strftime_ts (now environ)))]],
       Returned \<lparr>status = ''201 Created'',
         body = ReviewJ [(''ReviewId'', Str (uuid4 environ)), (''ReviewBody'', Str review_body),
          (''Location'', Str location), (''Timestamp'', Str (strftime_ts (now environ)))]\<rparr>)"
    unfolding m using g l assms(4,6) by (simp add: handle_post_def Let_def)
  moreover have "strptime_ts (strftime_ts (now environ)) = Inr ((now environ)\<lparr>microsecond := 0\<rparr>)"
    using assms(7) by (rule strptime_strftime)
  ultimately show ?thesis
    by (simp add: length_strftime)
qed

theorem post_created_witness:
  "valid_datetime example_now \<and> 1000 \<le> year example_now \<and>
   ''Denver, Colorado'' \<in> set ALLOWED_LOCATIONS \<and>
   call example_sia example_reviews
      (example_request ''POST'' []
         [(''ReviewBody'', [''Great stay'']), (''Location'', [''Denver, Colorado''])]) =
     (example_reviews @
        [[(''ReviewId'', Str ''6f1c2a9e-0b7d-4c3a-9e2f-5d8a1b4c7e90''),
          (''ReviewBody'', Str ''Great stay''), (''Location'', Str ''Denver, Colorado''),
          (''Timestamp'', Str ''2024-03-09 07:05:59'')]],
      Returned \<lparr>status = ''201 Created'',
        body = ReviewJ
          [(''ReviewId'', Str ''6f1c2a9e-0b7d-4c3a-9e2f-5d8a1b4c7e90''),
           (''ReviewBody'', Str ''Great stay''), (''Location'', Str ''Denver, Colorado''),
           (''Timestamp'', Str ''2024-03-09 07:05:59'')]\<rparr>) \<and>
   strptime_ts ''2024-03-09 07:05:59'' = Inr (example_now\<lparr>microsecond := 0\<rparr>)"
proof -
  have ts: "strftime_ts example_now = ''2024-03-09 07:05:59''"
    by (simp add: strftime_ts_def example_now_def pad2_def pad4_def digit_char_nth)
  have v: "valid_datetime example_now"
    by (simp add: valid_datetime_def example_now_def days_in_month_def)
  have y: "1000 \<le> year example_now" by (simp add: example_now_def)
  have a: "''Denver, Colorado'' \<in> set ALLOWED_LOCATIONS" by (simp add: ALLOWED_LOCATIONS_def)
  show ?thesis
    using post_created[of "example_request ''POST'' []
         [(''ReviewBody'', [''Great stay'']), (''Location'', [''Denver, Colorado''])]"
      "map_of [(''ReviewBody'', [''Great stay'']), (''Location'', [''Denver, Colorado''])]"
      "''Great stay''" "[]" "''Denver, Colorado''" "[]" example_sia example_reviews] v y a ts
    by (simp add: example_request_def)
qed

text \<open>
  C2. In every 200 response to a GET each review has scores under \<^verbatim>\<open>'sentiment'\<close>, and the
  \<^verbatim>\<open>compound\<close> values of these scores never increase along the response. The response is
  a stable rearrangement of the list that line 87 sorts (the filtered list, as the loop
  of line 83 left it): it has the same reviews, and for every value the reviews whose
  \<^verbatim>\<open>compound\<close> is that value come in their order of before. The example has two reviews
  with the same score and two different scores of the same sign.
\<close>

theorem get_sorted_stable:
  assumes "REQUEST_METHOD environ = ''GET''"
    and "call sia reviews environ =
      (reviews'', Returned \<lparr>status = ''200 OK'', body = ReviewsJ out\<rparr>)"
  shows "\<exists>fr reviews' scs.
    filtered_reviews reviews (query_params environ) = Inr fr \<and>
    sentiment_loop sia reviews (deref reviews fr) = (reviews', None) \<and>
    map (\<lambda>r. map_of r ''sentiment'') out = map (\<lambda>sc. Some (Scores sc)) scs \<and>
    sorted_wrt (\<lambda>a b. compound b \<le> compound a) scs \<and>
    mset out = mset (map ((!) reviews') (deref reviews fr)) \<and>
    (\<forall>c. filter (\<lambda>r. \<exists>sc. map_of r ''sentiment'' = Some (Scores sc) \<and> compound sc = c) out =
         filter (\<lambda>r. \<exists>sc. map_of r ''sentiment'' = Some (Scores sc) \<and> compound sc = c)
           (map ((!) reviews') (deref reviews fr)))"
proof -
  from assms have "handle_get sia reviews (query_params environ) =
      (reviews'', Returned \<lparr>status = ''200 OK'', body = ReviewsJ out\<rparr>)"
    by (simp add: call_def)
  then obtain fr rs' where fr: "filtered_reviews reviews (query_params environ) = Inr fr"
    and run: "sentiment_loop sia reviews (deref reviews fr) = (rs', None)"
    and out: "out = sort_reverse keyval (map ((!) rs') (deref reviews fr))"
    by (rule handle_get_200E)
  let ?pre = "map ((!) rs') (deref reviews fr)"
  let ?has = "\<lambda>c r. \<exists>sc. map_of r ''sentiment'' = Some (Scores sc) \<and> compound sc = c"
  have dec: "\<forall>r\<in>set ?pre. decorated sia r" using fr run by (rule sorted_output_decorated)
  then have pre: "\<forall>r\<in>set ?pre.
      \<exists>sc. map_of r ''sentiment'' = Some (Scores sc) \<and> keyval r = compound sc"
    using decorated_compound by blast
  then obtain f where f: "\<forall>r\<in>set ?pre.
      map_of r ''sentiment'' = Some (Scores (f r)) \<and> keyval r = compound (f r)"
    using bchoice[of "set ?pre"
        "\<lambda>r sc. map_of r ''sentiment'' = Some (Scores sc) \<and> keyval r = compound sc"]
    by blast
  then have fout: "\<forall>r\<in>set out.
      map_of r ''sentiment'' = Some (Scores (f r)) \<and> keyval r = compound (f r)"
    unfolding out set_sort_reverse .
  have k1: "map (\<lambda>r. map_of r ''sentiment'') out = map (\<lambda>sc. Some (Scores sc)) (map f out)"
    using fout by simp
  have "sorted (rev (map keyval out))" unfolding out by (rule sort_reverse_sorted)
  then have k2: "sorted_wrt (\<lambda>a b. compound b \<le> compound a) (map f out)"
    using fout by (rule sorted_rev_compound)
  have k3: "mset out = mset ?pre" unfolding out by (rule mset_sort_reverse)
  have same: "?has c r \<longleftrightarrow> keyval r = c" if "r \<in> set ?pre" for c r
    using f that by auto
  have k4: "filter (?has c) out = filter (?has c) ?pre" for c
  proof -
    have "filter (?has c) out = filter (\<lambda>r. keyval r = c) out"
      using same by (intro filter_cong) (auto simp: out set_sort_reverse)
    also have "\<dots> = filter (\<lambda>r. keyval r = c) ?pre"
      unfolding out by (rule sort_reverse_stable)
    also have "\<dots> = filter (?has c) ?pre"
      using same by (intro filter_cong) auto
    finally show ?thesis .
  qed
  from fr run k1 k2 k3 k4 show ?thesis by blast
qed

theorem get_sorted_stable_witness:
  "REQUEST_METHOD (example_request ''GET'' [] []) = ''GET'' \<and>
   call example_graded_sia example_dated (example_request ''GET'' [] []) =
     (example_ranking, Returned \<lparr>status = ''200 OK'', body = ReviewsJ example_ranking\<rparr>) \<and>
   map (\<lambda>r. (map_of r ''ReviewId'', map_of r ''sentiment'')) example_ranking =
    [(Some (Str ''d2''), Some (Scores \<lparr>neg = 0, neu = 1, pos = 0, compound = 1 / 2\<rparr>)),
     (Some (Str ''d1''), Some (Scores \<lparr>neg = 0, neu = 1, pos = 0, compound = 1 / 5\<rparr>)),
     (Some (Str ''d4''), Some (Scores \<lparr>neg = 0, neu = 1, pos = 0, compound = 1 / 5\<rparr>)),
     (Some (Str ''d5''), Some (Scores \<lparr>neg = 0, neu = 1, pos = 0, compound = 0\<rparr>)),
     (Some (Str ''d3''), Some (Scores \<lparr>neg = 0, neu = 1, pos = 0, compound = - 1 / 2\<rparr>))] \<and>
   (\<exists>fr reviews' scs.
      filtered_reviews example_dated (query_params (example_request ''GET'' [] [])) = Inr fr \<and>
      sentiment_loop example_graded_sia example_dated (deref example_dated fr) = (reviews', None) \<and>
      map (\<lambda>r. map_of r ''sentiment'') example_ranking = map (\<lambda>sc. Some (Scores sc)) scs \<and>
      sorted_wrt (\<lambda>a b. compound b \<le> compound a) scs \<and>
      mset example_ranking = mset (map ((!) reviews') (deref example_dated fr)) \<and>
      (\<forall>c. filter (\<lambda>r. \<exists>sc. map_of r ''sentiment'' = Some (Scores sc) \<and> compound sc = c)
             example_ranking =
           filter (\<lambda>r. \<exists>sc. map_of r ''sentiment'' = Some (Scores sc) \<and> compound sc = c)
             (map ((!) reviews') (deref example_dated fr))))"
  by (intro conjI; (rule example_get_method example_get_ranking example_ranking_scores
      get_sorted_stable[OF example_get_method example_get_ranking]))

text \<open>
  C9. The same GET twice in a row, with no other request between: the second call gives
  what the first gave, the response as well as the list of reviews left behind (and an
  exception when the first raised one). So both responses hold the same reviews with the
  same identifiers; and in a 200 response the sentiment of every review is the scorer's
  value for the text of that review, the scorer being a function of the text.
\<close>

theorem read_idempotent:
  assumes "REQUEST_METHOD environ = ''GET''"
  shows "call sia (fst (call sia reviews environ)) environ = call sia reviews environ \<and>
    (\<forall>reviews'' out.
       call sia reviews environ =
         (reviews'', Returned \<lparr>status = ''200 OK'', body = ReviewsJ out\<rparr>) \<longrightarrow>
       (\<forall>r\<in>set out. \<exists>b. map_of r ''ReviewBody'' = Some (Str b) \<and>
                           map_of r ''sentiment'' = Some (Scores (sia b))))"
proof -
  have c: "call sia rs environ = handle_get sia rs (query_params environ)" for rs
    using assms by (simp add: call_def)
  have "call sia (fst (call sia reviews environ)) environ = call sia reviews environ"
    unfolding c by (rule get_twice)
  moreover have "\<forall>r\<in>set out. \<exists>b. map_of r ''ReviewBody'' = Some (Str b) \<and>
                           map_of r ''sentiment'' = Some (Scores (sia b))"
    if "call sia reviews environ =
         (reviews'', Returned \<lparr>status = ''200 OK'', body = ReviewsJ out\<rparr>)" for reviews'' out
    using response_decorated[of sia reviews "query_params environ" reviews'' out] that
    unfolding c decorated_def by blast
  ultimately show ?thesis by blast
qed

theorem read_idempotent_witness:
  "REQUEST_METHOD (example_request ''GET'' [] []) = ''GET'' \<and>
   call example_sia example_reviews (example_request ''GET'' [] []) =
     (example_scored, Returned \<lparr>status = ''200 OK'', body = ReviewsJ example_scored\<rparr>) \<and>
   call example_sia (fst (call example_sia example_reviews (example_request ''GET'' [] [])))
      (example_request ''GET'' [] []) =
     (example_scored, Returned \<lparr>status = ''200 OK'', body = ReviewsJ example_scored\<rparr>)"
  using read_idempotent[OF example_get_method, of example_sia example_reviews "[]" "[]"]
    example_get_method[of "[]" "[]"] example_get_all
  by simp

text \<open>
  C1. In a 200 response to a GET, the reviews returned are, up to the order and the
  sentiment attached, the stored reviews that pass the three tests, written out on the
  fields of the dates. The location is the one asked for (when one is given). When
  \<^verbatim>\<open>start_date\<close> is given: the stored timestamp, read under \<^verbatim>\<open>%Y-%m-%d %H:%M:%S\<close>, is of the
  day of \<^verbatim>\<open>start_date\<close> or of a later day (that is, not before that day's 00:00:00). When
  \<^verbatim>\<open>end_date\<close> is given: the stored timestamp is of a day before the day of \<^verbatim>\<open>end_date\<close>, or
  of that very day with the time 00:00:00, so every later time of the end day is
  excluded, and so is every later day. Both dates are read under \<^verbatim>\<open>%Y-%m-%d\<close>, which gives
  the time 00:00:00. The example has records of the start day, of the end day at
  00:00:00 and at a later time, of the day after, and of the end day a year before.
\<close>

theorem date_filter:
  assumes "REQUEST_METHOD environ = ''GET''"
    and "call sia reviews environ =
      (reviews'', Returned \<lparr>status = ''200 OK'', body = ReviewsJ out\<rparr>)"
    and "get_first (query_params environ) ''location'' = Inr location"
    and "get_first (query_params environ) ''start_date'' = Inr start_date"
    and "get_first (query_params environ) ''end_date'' = Inr end_date"
  shows
    "mset (map (AList.delete ''sentiment'') out) =
     mset (map (AList.delete ''sentiment'')
       (filter (\<lambda>r.
          (truthy location \<longrightarrow> map_of r ''Location'' = Some (Str (the location))) \<and>
          (truthy start_date \<longrightarrow>
            (\<exists>sd t. strptime_date (the start_date) = Inr sd \<and> timestamp_of r = Inr t \<and>
               (year sd < year t \<or>
                year sd = year t \<and>
                  (month sd < month t \<or> month sd = month t \<and> day sd \<le> day t)))) \<and>
          (truthy end_date \<longrightarrow>
            (\<exists>ed t. strptime_date (the end_date) = Inr ed \<and> timestamp_of r = Inr t \<and>
               (year t < year ed \<or>
                year t = year ed \<and>
                  (month t < month ed \<or>
                   month t = month ed \<and>
                     (day t < day ed \<or>
                      day t = day ed \<and> hour t = 0 \<and> minute t = 0 \<and> second t = 0))))))
        reviews)) \<and>
     (\<forall>s d. strptime_date s = Inr d \<longrightarrow>
        hour d = 0 \<and> minute d = 0 \<and> second d = 0 \<and> microsecond d = 0)"
proof -
  note old = date_filter_dt_le[OF assms]
  have p1: "mset (map (AList.delete ''sentiment'') out) =
     mset (map (AList.delete ''sentiment'')
       (filter (\<lambda>r.
          (truthy location \<longrightarrow> map_of r ''Location'' = Some (Str (the location))) \<and>
          (truthy start_date \<longrightarrow>
            (\<exists>sd t. strptime_date (the start_date) = Inr sd \<and> timestamp_of r = Inr t \<and>
               (year sd < year t \<or>
                year sd = year t \<and>
                  (month sd < month t \<or> month sd = month t \<and> day sd \<le> day t)))) \<and>
          (truthy end_date \<longrightarrow>
            (\<exists>ed t. strptime_date (the end_date) = Inr ed \<and> timestamp_of r = Inr t \<and>
               (year t < year ed \<or>
                year t = year ed \<and>
                  (month t < month ed \<or>
                   month t = month ed \<and>
                     (day t < day ed \<or>
                      day t = day ed \<and> hour t = 0 \<and> minute t = 0 \<and> second t = 0))))))
        reviews))"
    using old[THEN conjunct1] unfolding not_before_fields not_after_fields .
  have p2: "\<forall>s d. strptime_date s = Inr d \<longrightarrow>
        hour d = 0 \<and> minute d = 0 \<and> second d = 0 \<and> microsecond d = 0"
    using strptime_date_midnight by blast
  show ?thesis by (rule conjI[OF p1 p2])
qed

theorem date_filter_witness:
  "REQUEST_METHOD example_between = ''GET'' \<and>
   call example_graded_sia example_dated example_between =
    ([scored (example_dated ! 0) (1 / 5), scored (example_dated ! 1) (1 / 2), example_dated ! 2,
      example_dated ! 3, example_dated ! 4],
     Returned \<lparr>status = ''200 OK'',
       body = ReviewsJ [scored (example_dated ! 1) (1 / 2), scored (example_dated ! 0) (1 / 5)]\<rparr>) \<and>
   get_first (query_params example_between) ''location'' = Inr None \<and>
   get_first (query_params example_between) ''start_date'' = Inr (Some ''2024-01-14'') \<and>
   get_first (query_params example_between) ''end_date'' = Inr (Some ''2024-01-15'') \<and>
   map (\<lambda>r. map_of r ''Timestamp'') example_dated =
     [Some (Str ''2024-01-14 23:59:59''), Some (Str ''2024-01-15 00:00:00''),
      Some (Str ''2024-01-15 10:30:00''), Some (Str ''2023-01-15 00:00:00''),
      Some (Str ''2024-01-16 00:00:00'')] \<and>
   mset (map (AList.delete ''sentiment'')
       [scored (example_dated ! 1) (1 / 2), scored (example_dated ! 0) (1 / 5)]) =
     mset (map (AList.delete ''sentiment'')
       (filter (\<lambda>r.
          (truthy None \<longrightarrow> map_of r ''Location'' = Some (Str (the None))) \<and>
          (truthy (Some ''2024-01-14'') \<longrightarrow>
            (\<exists>sd t. strptime_date (the (Some ''2024-01-14'')) = Inr sd \<and>
               timestamp_of r = Inr t \<and>
               (year sd < year t \<or>
                year sd = year t \<and>
                  (month sd < month t \<or> month sd = month t \<and> day sd \<le> day t)))) \<and>
          (truthy (Some ''2024-01-15'') \<longrightarrow>
            (\<exists>ed t. strptime_date (the (Some ''2024-01-15'')) = Inr ed \<and>
               timestamp_of r = Inr t \<and>
               (year t < year ed \<or>
                year t = year ed \<and>
                  (month t < month ed \<or>
                   month t = month ed \<and>
                     (day t < day ed \<or>
                      day t = day ed \<and> hour t = 0 \<and> minute t = 0 \<and> second t = 0))))))
        example_dated)) \<and>
   map (AList.delete ''sentiment'')
       [scored (example_dated ! 1) (1 / 2), scored (example_dated ! 0) (1 / 5)] =
     [example_dated ! 1, example_dated ! 0]"
proof -
  have ts: "map (\<lambda>r. map_of r ''Timestamp'') example_dated =
     [Some (Str ''2024-01-14 23:59:59''), Some (Str ''2024-01-15 00:00:00''),
      Some (Str ''2024-01-15 10:30:00''), Some (Str ''2023-01-15 00:00:00''),
      Some (Str ''2024-01-16 00:00:00'')]"
    by (simp add: example_dated_def)
  have del: "map (AList.delete ''sentiment'')
       [scored (example_dated ! 1) (1 / 2), scored (example_dated ! 0) (1 / 5)] =
     [example_dated ! 1, example_dated ! 0]"
    by (simp add: example_dated_def scored_def)
  show ?thesis
    by (intro conjI;
        (rule example_between_params example_get_between ts del
          date_filter[OF example_between_params(1) example_get_between
            example_between_params(2,3,4), THEN conjunct1]))
qed

text \<open>
  C7, as the code has it. A GET writes into the stored dicts: the loop of line 83 sets
  \<^verbatim>\<open>'sentiment'\<close> in the very dicts that \<^verbatim>\<open>reviews\<close> holds, so the claim that a read leaves
  every field of every stored record alone does not hold (the counterexample below, with
  an \<^verbatim>\<open>end_date\<close> and without any parameter). What holds: a GET adds and removes no record
  and changes no key other than \<^verbatim>\<open>'sentiment'\<close>; a stored record is afterwards what it was,
  or what it was with \<^verbatim>\<open>'sentiment'\<close> set to the scorer's value for its \<^verbatim>\<open>'ReviewBody'\<close>; and
  when a location, a start date or an end date is given, the order of the list is as
  before.
\<close>

theorem get_frame:
  assumes "REQUEST_METHOD environ = ''GET''"
  shows
    "mset (map (AList.delete ''sentiment'') (fst (call sia reviews environ))) =
       mset (map (AList.delete ''sentiment'') reviews) \<and>
     ((\<exists>p v vs. p \<in> {''location'', ''start_date'', ''end_date''} \<and>
          query_params environ p = Some (v # vs) \<and> v \<noteq> []) \<longrightarrow>
        map (AList.delete ''sentiment'') (fst (call sia reviews environ)) =
          map (AList.delete ''sentiment'') reviews) \<and>
     (\<forall>r\<in>set (fst (call sia reviews environ)).
        r \<in> set reviews \<or>
        (\<exists>r0\<in>set reviews. \<exists>b. map_of r0 ''ReviewBody'' = Some (Str b) \<and>
            r = setitem r0 ''sentiment'' (Scores (sia b))))"
proof -
  let ?d = "AList.delete ''sentiment''"
  let ?qp = "query_params environ"
  have c: "call sia reviews environ = handle_get sia reviews ?qp"
    using assms by (simp add: call_def)
  have p1: "mset (map ?d (fst (handle_get sia reviews ?qp))) = mset (map ?d reviews)"
  proof (cases rule: handle_get_store_cases[of sia reviews ?qp])
    case same
    then show ?thesis by simp
  next
    case (written fr rs' x)
    then show ?thesis using loop_delete[OF written(2)] by simp
  next
    case (sorted rs')
    have "mset (sort_reverse keyval rs') = mset rs'" by (rule mset_sort_reverse)
    then have "mset (map ?d (sort_reverse keyval rs')) = mset (map ?d rs')"
      by (simp only: mset_map)
    then show ?thesis using loop_delete[OF sorted(2)] sorted(3) by simp
  qed
  have p2: "map ?d (fst (handle_get sia reviews ?qp)) = map ?d reviews"
    if "\<exists>p v vs. p \<in> {''location'', ''start_date'', ''end_date''} \<and>
          ?qp p = Some (v # vs) \<and> v \<noteq> []"
  proof (cases rule: handle_get_store_cases[of sia reviews ?qp])
    case same
    then show ?thesis by simp
  next
    case (written fr rs' x)
    then show ?thesis using loop_delete[OF written(2)] by simp
  next
    case (sorted rs')
    from that obtain p v vs where "p \<in> {''location'', ''start_date'', ''end_date''}"
      "?qp p = Some (v # vs)" "v \<noteq> []" by blast
    then have "filtered_reviews reviews ?qp \<noteq> Inr Global"
      using truthy_param_not_Global by blast
    with sorted(1) show ?thesis by simp
  qed
  have p3: "\<forall>r\<in>set (fst (handle_get sia reviews ?qp)).
        r \<in> set reviews \<or>
        (\<exists>r0\<in>set reviews. \<exists>b. map_of r0 ''ReviewBody'' = Some (Str b) \<and>
            r = setitem r0 ''sentiment'' (Scores (sia b)))"
  proof (cases rule: handle_get_store_cases[of sia reviews ?qp])
    case same
    then show ?thesis by simp
  next
    case (written fr rs' x)
    then show ?thesis using loop_elements[OF written(2)] by simp
  next
    case (sorted rs')
    then show ?thesis using loop_elements[OF sorted(2)] by (simp add: set_sort_reverse)
  qed
  show ?thesis unfolding c using p1 p2 p3 impI by blast
qed

theorem get_frame_witness:
  "REQUEST_METHOD example_until = ''GET'' \<and>
   call example_sia example_reviews example_until =
     ([example_scored ! 1, example_reviews ! 1],
      Returned \<lparr>status = ''200 OK'', body = ReviewsJ [example_scored ! 1]\<rparr>) \<and>
   map (AList.delete ''sentiment'') [example_scored ! 1, example_reviews ! 1] =
     map (AList.delete ''sentiment'') example_reviews"
proof -
  have "\<exists>p v vs. p \<in> {''location'', ''start_date'', ''end_date''} \<and>
      query_params example_until p = Some (v # vs) \<and> v \<noteq> []"
    by (rule exI[of _ "''end_date''"], rule exI[of _ "''2024-01-15''"], rule exI[of _ "[]"])
      (simp add: example_until_def example_request_def)
  with get_frame[OF example_until_params(1), of example_sia example_reviews]
  have "map (AList.delete ''sentiment'') (fst (call example_sia example_reviews example_until)) =
      map (AList.delete ''sentiment'') example_reviews"
    by blast
  then show ?thesis
    using example_until_params(1) example_get_until by simp
qed

text \<open>
  C7, the counterexample: a GET with an \<^verbatim>\<open>end_date\<close> leaves \<^verbatim>\<open>'sentiment'\<close> in the stored
  record it returned, and a GET without any parameter leaves the stored list scored and
  reordered.
\<close>

theorem get_writes_store_counterexample:
  "fst (call example_sia example_reviews example_until) =
     [example_scored ! 1, example_reviews ! 1] \<and>
   [example_scored ! 1, example_reviews ! 1] \<noteq> example_reviews \<and>
   map_of (example_reviews ! 0) ''sentiment'' = None \<and>
   map_of (example_scored ! 1) ''sentiment'' =
     Some (Scores \<lparr>neg = 0, neu = 1, pos = 0, compound = - 1 / 2\<rparr>) \<and>
   fst (call example_sia example_reviews (example_request ''GET'' [] [])) = example_scored \<and>
   example_scored \<noteq> example_reviews"
  by (simp add: example_get_until example_get_all) (simp add: example_scored_def example_reviews_def)

text \<open>
  C8, as the code has it. The GET branch has no exception handler, and \<^verbatim>\<open>strptime\<close> raises
  \<^verbatim>\<open>ValueError\<close> on a \<^verbatim>\<open>start_date\<close> or \<^verbatim>\<open>end_date\<close> it cannot read: such a request gets
  neither of the two responses (the counterexample below). What holds: when the dates that
  are given can be read, over a store of records that can be read, the answer is 200
  with the reviews, each with the sentiment computed from its text, or 400 with
  \<^verbatim>\<open>{"error": "Invalid location"}\<close>.
\<close>

theorem get_outcomes:
  assumes "REQUEST_METHOD environ = ''GET''"
    and "\<forall>p. query_params environ p \<noteq> Some []"
    and "\<forall>v. get_first (query_params environ) ''start_date'' = Inr (Some v) \<and> v \<noteq> [] \<longrightarrow>
           (\<exists>d. strptime_date v = Inr d)"
    and "\<forall>v. get_first (query_params environ) ''end_date'' = Inr (Some v) \<and> v \<noteq> [] \<longrightarrow>
           (\<exists>d. strptime_date v = Inr d)"
    and "\<forall>r\<in>set reviews. well_formed r"
  shows
    "(\<exists>reviews'' out.
        call sia reviews environ =
          (reviews'', Returned \<lparr>status = ''200 OK'', body = ReviewsJ out\<rparr>) \<and>
        (\<forall>r\<in>set out. \<exists>b. map_of r ''ReviewBody'' = Some (Str b) \<and>
                            map_of r ''sentiment'' = Some (Scores (sia b)))) \<or>
     call sia reviews environ =
       (reviews, Returned \<lparr>status = ''400 Bad Request'', body = ErrorJ ''Invalid location''\<rparr>)"
proof -
  let ?qp = "query_params environ"
  have c: "call sia reviews environ = handle_get sia reviews ?qp"
    using assms(1) by (simp add: call_def)
  obtain l s e where g: "get_first ?qp ''location'' = Inr l"
    "get_first ?qp ''start_date'' = Inr s" "get_first ?qp ''end_date'' = Inr e"
    using assms(2) get_first_defined by metis
  show ?thesis
  proof (cases "truthy l \<and> the l \<notin> set ALLOWED_LOCATIONS")
    case True
    then have "filter_location reviews l Global = Inl (Returned invalid_location)"
      by (simp add: filter_location_def)
    with g have "filtered_reviews reviews ?qp = Inl (Returned invalid_location)"
      by (simp add: filtered_reviews_def)
    then have "handle_get sia reviews ?qp = (reviews, Returned invalid_location)"
      by (rule handle_get_early)
    then show ?thesis unfolding c by (simp add: invalid_location_def)
  next
    case False
    then have ok: "truthy l \<longrightarrow> the l \<in> set ALLOWED_LOCATIONS" by blast
    have sd: "truthy s \<longrightarrow> (\<exists>d. strptime_date (the s) = Inr d)"
      using assms(3) g(2) truthy_the[of s] by auto
    have ed: "truthy e \<longrightarrow> (\<exists>d. strptime_date (the e) = Inr d)"
      using assms(4) g(3) truthy_the[of e] by auto
    obtain fr1 where f1: "filter_location reviews l Global = Inr fr1"
      using filter_location_total[OF assms(5) in_range_Global ok] by blast
    have r1: "in_range reviews fr1" using f1 in_range_Global by (rule filter_location_range)
    obtain fr2 where f2: "filter_start_date reviews s fr1 = Inr fr2"
      using filter_start_date_total[OF assms(5) r1 sd] by blast
    have r2: "in_range reviews fr2" using f2 r1 by (rule filter_start_date_range)
    obtain fr3 where f3: "filter_end_date reviews e fr2 = Inr fr3"
      using filter_end_date_total[OF assms(5) r2 ed] by blast
    have r3: "in_range reviews fr3" using f3 r2 by (rule filter_end_date_range)
    have fr: "filtered_reviews reviews ?qp = Inr fr3"
      using g f1 f2 f3 by (simp add: filtered_reviews_def)
    have "\<forall>j\<in>set (deref reviews fr3). \<exists>b. map_of (reviews ! j) ''ReviewBody'' = Some (Str b)"
      using r3 assms(5) well_formed_body by (simp add: in_range_def)
    then obtain rs' where run: "sentiment_loop sia reviews (deref reviews fr3) = (rs', None)"
      using loop_total by blast
    note h = handle_get_sorted[OF fr run]
    have "\<forall>r\<in>set (sort_reverse keyval (map ((!) rs') (deref reviews fr3))). decorated sia r"
      using h by (rule response_decorated)
    then have "\<forall>r\<in>set (sort_reverse keyval (map ((!) rs') (deref reviews fr3))).
        \<exists>b. map_of r ''ReviewBody'' = Some (Str b) \<and>
            map_of r ''sentiment'' = Some (Scores (sia b))"
      unfolding decorated_def .
    with h show ?thesis unfolding c by blast
  qed
qed

theorem get_outcomes_witness:
  "REQUEST_METHOD example_until = ''GET'' \<and>
   (\<forall>p. query_params example_until p \<noteq> Some []) \<and>
   get_first (query_params example_until) ''start_date'' = Inr None \<and>
   get_first (query_params example_until) ''end_date'' = Inr (Some ''2024-01-15'') \<and>
   strptime_date ''2024-01-15'' =
     Inr \<lparr>year = 2024, month = 1, day = 15, hour = 0, minute = 0, second = 0, microsecond = 0\<rparr> \<and>
   length example_reviews = 2 \<and>
   well_formed (example_reviews ! 0) \<and> well_formed (example_reviews ! 1) \<and>
   call example_sia example_reviews example_until =
     ([example_scored ! 1, example_reviews ! 1],
      Returned \<lparr>status = ''200 OK'', body = ReviewsJ [example_scored ! 1]\<rparr>) \<and>
   (\<exists>b. map_of (example_scored ! 1) ''ReviewBody'' = Some (Str b) \<and>
       map_of (example_scored ! 1) ''sentiment'' = Some (Scores (example_sia b)))"
proof -
  have p: "\<forall>p. query_params example_until p \<noteq> Some []"
    by (simp add: example_until_def example_request_def)
  have d: "strptime_date ''2024-01-15'' =
     Inr \<lparr>year = 2024, month = 1, day = 15, hour = 0, minute = 0, second = 0, microsecond = 0\<rparr>"
    by (simp add: eval_defs)
  have s: "\<forall>v. get_first (query_params example_until) ''start_date'' = Inr (Some v) \<and> v \<noteq> [] \<longrightarrow>
           (\<exists>d. strptime_date v = Inr d)"
    by (simp add: example_until_params)
  have e: "\<forall>v. get_first (query_params example_until) ''end_date'' = Inr (Some v) \<and> v \<noteq> [] \<longrightarrow>
           (\<exists>d. strptime_date v = Inr d)"
    using d by (simp add: example_until_params)
  have l: "length example_reviews = 2" by (simp add: example_reviews_def)
  have w: "well_formed (example_reviews ! 0)" "well_formed (example_reviews ! 1)"
    using example_reviews_well_formed l by simp_all
  from get_outcomes[OF example_until_params(1) p s e example_reviews_well_formed, of example_sia]
  have "\<exists>b. map_of (example_scored ! 1) ''ReviewBody'' = Some (Str b) \<and>
       map_of (example_scored ! 1) ''sentiment'' = Some (Scores (example_sia b))"
    unfolding example_get_until by simp
  with example_until_params p d l w example_get_until
  show ?thesis by blast
qed

text \<open>
  C8, the counterexample: a GET with \<^verbatim>\<open>start_date=yesterday\<close> ends in a \<^verbatim>\<open>ValueError\<close> that
  leaves the handler; no response is made.
\<close>

theorem get_malformed_date_counterexample:
  "call example_sia example_reviews example_malformed = (example_reviews, Raised ValueError)"
  by (simp add: eval_defs example_malformed_def)

text \<open>
  C6. A run of POST requests, whatever they carry, from any list of reviews: the list
  afterwards is the list before followed by the records of the 201 responses, in their
  order, so a request answered otherwise (400 or 500) leaves it as it was; every record
  so accepted has a \<^verbatim>\<open>'Location'\<close> of the allow-list and a \<^verbatim>\<open>'Timestamp'\<close> that \<^verbatim>\<open>strptime\<close> reads
  under \<^verbatim>\<open>%Y-%m-%d %H:%M:%S\<close>; and every request is answered with 201, 400 or 500. The
  clock is assumed to give valid dates from the year 1000 on.
\<close>

theorem accepted_records:
  assumes "\<forall>e\<in>set environs.
      REQUEST_METHOD e = ''POST'' \<and> valid_datetime (now e) \<and> 1000 \<le> year (now e)"
  shows
    "serve sia reviews environs = reviews @ accepted sia reviews environs \<and>
     (\<forall>r\<in>set (accepted sia reviews environs).
        (\<exists>l. map_of r ''Location'' = Some (Str l) \<and> l \<in> set ALLOWED_LOCATIONS) \<and>
        (\<exists>t. timestamp_of r = Inr t)) \<and>
     (\<forall>out\<in>set (outcomes sia reviews environs). \<exists>r. out = Returned r \<and>
        status r \<in> {''201 Created'', ''400 Bad Request'', ''500 Internal Server Error''})"
proof -
  from assms have "\<forall>e\<in>set environs. REQUEST_METHOD e = ''POST'' \<and> valid_datetime (now e)"
    by blast
  from post_sequence[OF this, of sia reviews] show ?thesis
    unfolding acceptable_def .
qed

theorem accepted_records_witness:
  "map REQUEST_METHOD example_posts = [''POST'', ''POST'', ''POST''] \<and>
   map now example_posts = [example_now, example_now, example_now] \<and>
   valid_datetime example_now \<and> 1000 \<le> year example_now \<and>
   serve example_sia example_reviews example_posts = example_reviews @ [example_posted] \<and>
   accepted example_sia example_reviews example_posts = [example_posted] \<and>
   (\<exists>l. map_of example_posted ''Location'' = Some (Str l) \<and> l \<in> set ALLOWED_LOCATIONS) \<and>
   (\<exists>t. timestamp_of example_posted = Inr t)"
proof -
  have m: "map REQUEST_METHOD example_posts = [''POST'', ''POST'', ''POST'']"
    and n: "map now example_posts = [example_now, example_now, example_now]"
    by (simp_all add: example_posts_def example_request_def)
  have h: "\<forall>e\<in>set example_posts.
      REQUEST_METHOD e = ''POST'' \<and> valid_datetime (now e) \<and> 1000 \<le> year (now e)"
    by (simp add: example_posts_def example_request_def example_now_valid)
  from accepted_records[OF h, of example_sia example_reviews]
  have "(\<exists>l. map_of example_posted ''Location'' = Some (Str l) \<and> l \<in> set ALLOWED_LOCATIONS) \<and>
      (\<exists>t. timestamp_of example_posted = Inr t)"
    unfolding example_posts_served by simp
  with m n example_now_valid example_posts_served show ?thesis by blast
qed

end
